theory Spec2Isabelle
  imports Main "HOL-Library.Char_ord" "HOL-Library.List_Lexorder" "HOL-Library.Option_ord"
    "HOL-Library.Multiset"
begin

section \<open>Values shared by the backend\<close>

text \<open>
  Object ids are the hex strings the driver hands out. A \<open>Date\<close> is its number of
  milliseconds since the epoch. The collections \<open>Task\<close> and \<open>User\<close> are lists of
  documents in the store's natural order.
\<close>

type_synonym objectId = string
type_synonym date = int

datatype error =
    ValidationError
  | Unauthorized
  | NotFound
  | EmailAlreadyExists
  | InvalidCredentials
  | InvalidOrExpiredResetToken
  | ServerError

text \<open>
  \<open>errorHandler\<close> answers with \<open>err.status || 500\<close>; the middlewares and controllers
  set 400, 401 and 404 themselves.
\<close>

fun status_of :: "error \<Rightarrow> nat" where
  "status_of ValidationError = 400"
| "status_of Unauthorized = 401"
| "status_of NotFound = 404"
| "status_of EmailAlreadyExists = 409"
| "status_of InvalidCredentials = 401"
| "status_of InvalidOrExpiredResetToken = 400"
| "status_of ServerError = 500"

record AuthUser =
  au_id :: objectId
  au_email :: string
  au_name :: "string option"

text \<open>
  The libraries the backend calls are parameters of the embedding: \<open>crypto\<close>'s SHA-256
  hex digest, \<open>bcryptjs\<close>, \<open>jsonwebtoken\<close>, the store's text index, the parsing of an
  ISO-8601 datetime string (\<open>None\<close> when \<open>z.string().datetime()\<close> rejects it, else the
  instant \<open>new Date\<close> gives), JavaScript's \<open>Number\<close> on a query string (\<open>None\<close> for
  \<open>NaN\<close>; only integral numbers are covered) and the process environment variable
  \<open>NODE_ENV\<close>.
\<close>

record ext =
  sha256_hex :: "string \<Rightarrow> string"
  bcrypt_hash :: "string \<Rightarrow> string"
  bcrypt_compare :: "string \<Rightarrow> string \<Rightarrow> bool"
  jwt_sign :: "objectId \<Rightarrow> string \<Rightarrow> string option \<Rightarrow> string"
  jwt_verify :: "string \<Rightarrow> AuthUser option"
  text_search :: "string \<Rightarrow> string \<Rightarrow> string option \<Rightarrow> bool"
  iso_datetime :: "string \<Rightarrow> date option"
  to_number :: "string \<Rightarrow> int option"
  NODE_ENV :: "string option"

subsection \<open>String setters of the schemas\<close>

definition is_space :: "char \<Rightarrow> bool" where
  "is_space c = (c \<in> set [CHR '' '', CHR 0x09, CHR 0x0A, CHR 0x0B, CHR 0x0C, CHR 0x0D])"

text \<open>\<open>String.prototype.trim\<close>, on ASCII white space.\<close>

definition trim :: "string \<Rightarrow> string" where
  "trim s = rev (dropWhile is_space (rev (dropWhile is_space s)))"

definition toLowerCase_char :: "char \<Rightarrow> char" where
  "toLowerCase_char c =
     (let n = (of_char c :: nat) in if 65 \<le> n \<and> n \<le> 90 then char_of (n + 32) else c)"

definition toLowerCase :: "string \<Rightarrow> string" where
  "toLowerCase s = map toLowerCase_char s"

subsection \<open>Finding a document\<close>

text \<open>
  \<open>findOne\<close> yields the first document that matches, here by its position, so that
  \<open>save\<close>, \<open>findOneAndUpdate\<close> and \<open>findOneAndDelete\<close> write to that very document.
\<close>

fun findOneIndex :: "('a \<Rightarrow> bool) \<Rightarrow> 'a list \<Rightarrow> nat option" where
  "findOneIndex P [] = None"
| "findOneIndex P (x # xs) = (if P x then Some 0 else map_option Suc (findOneIndex P xs))"

definition deleteAt :: "nat \<Rightarrow> 'a list \<Rightarrow> 'a list" where
  "deleteAt i xs = take i xs @ drop (Suc i) xs"

section \<open>Tasks\<close>

subsection \<open>models/Task.ts\<close>

datatype Priority = low | medium | high

fun priority_str :: "Priority \<Rightarrow> string" where
  "priority_str low = ''low''"
| "priority_str medium = ''medium''"
| "priority_str high = ''high''"

record TaskDoc =
  task_id :: objectId
  user :: objectId
  title :: string
  description :: "string option"
  priority :: Priority
  dueDate :: "date option"
  completed :: bool
  createdAt :: date
  updatedAt :: date

subsection \<open>routes/task.schemas.ts\<close>

text \<open>
  A JSON body as it arrives, restricted to values of the field's JSON type; a field that
  is absent is \<open>None\<close>.
\<close>

record RawTaskBody =
  rb_title :: "string option"
  rb_description :: "string option"
  rb_priority :: "string option"
  rb_dueDate :: "string option"
  rb_completed :: "bool option"

fun priority_enum :: "string \<Rightarrow> Priority option" where
  "priority_enum s =
     (if s = ''low'' then Some low
      else if s = ''medium'' then Some medium
      else if s = ''high'' then Some high
      else None)"

text \<open>
  The validated body of \<open>POST /tasks\<close>. The schema leaves the datetime string in place
  and \<open>createTask\<close> turns it into a \<open>Date\<close>; the embedding carries the instant that the
  validated string denotes.
\<close>

record CreateBody =
  cb_title :: string
  cb_description :: "string option"
  cb_priority :: Priority
  cb_dueDate :: "date option"
  cb_completed :: bool

definition createTaskSchema :: "ext \<Rightarrow> RawTaskBody \<Rightarrow> error + CreateBody" where
  "createTaskSchema X rb =
     (case rb_title rb of
        None \<Rightarrow> Inl ValidationError
      | Some t \<Rightarrow>
          if length t < 1 then Inl ValidationError
          else
            (case (case rb_priority rb of None \<Rightarrow> Some medium | Some p \<Rightarrow> priority_enum p) of
               None \<Rightarrow> Inl ValidationError
             | Some p \<Rightarrow>
                 (case (case rb_dueDate rb of
                          None \<Rightarrow> Some None
                        | Some s \<Rightarrow> map_option Some (iso_datetime X s)) of
                    None \<Rightarrow> Inl ValidationError
                  | Some d \<Rightarrow>
                      Inr \<lparr> cb_title = t, cb_description = rb_description rb,
                            cb_priority = p, cb_dueDate = d,
                            cb_completed = (case rb_completed rb of None \<Rightarrow> False
                                            | Some c \<Rightarrow> c) \<rparr>)))"

text \<open>The validated body of \<open>PATCH /tasks/:id\<close>: every field optional, no defaults.\<close>

record Patch =
  p_title :: "string option"
  p_description :: "string option"
  p_priority :: "Priority option"
  p_dueDate :: "date option"
  p_completed :: "bool option"

definition updateTaskSchema :: "ext \<Rightarrow> objectId \<Rightarrow> RawTaskBody \<Rightarrow> error + (objectId \<times> Patch)" where
  "updateTaskSchema X ident rb =
     (if length ident < 1 then Inl ValidationError
      else if (case rb_title rb of None \<Rightarrow> False | Some t \<Rightarrow> length t < 1)
        then Inl ValidationError
      else
        (case (case rb_priority rb of None \<Rightarrow> Some None
               | Some p \<Rightarrow> map_option Some (priority_enum p)) of
           None \<Rightarrow> Inl ValidationError
         | Some p \<Rightarrow>
             (case (case rb_dueDate rb of
                      None \<Rightarrow> Some None
                    | Some s \<Rightarrow> map_option Some (iso_datetime X s)) of
                None \<Rightarrow> Inl ValidationError
              | Some d \<Rightarrow>
                  Inr (ident, \<lparr> p_title = rb_title rb, p_description = rb_description rb,
                                p_priority = p, p_dueDate = d,
                                p_completed = rb_completed rb \<rparr>))))"

definition idSchema :: "objectId \<Rightarrow> error + objectId" where
  "idSchema ident = (if length ident < 1 then Inl ValidationError else Inr ident)"

text \<open>The query string of \<open>GET /tasks\<close> as Express parses it: every value a string.\<close>

record RawQuery =
  raw_search :: "string option"
  raw_priority :: "string option"
  raw_completed :: "string option"
  raw_dueBefore :: "string option"
  raw_dueAfter :: "string option"
  raw_page :: "string option"
  raw_limit :: "string option"
  raw_sort :: "string option"
  raw_order :: "string option"

datatype SortField = sort_createdAt | sort_dueDate | sort_priority

datatype SortOrder = asc | desc

fun sort_enum :: "string \<Rightarrow> SortField option" where
  "sort_enum s =
     (if s = ''createdAt'' then Some sort_createdAt
      else if s = ''dueDate'' then Some sort_dueDate
      else if s = ''priority'' then Some sort_priority
      else None)"

fun order_enum :: "string \<Rightarrow> SortOrder option" where
  "order_enum s =
     (if s = ''asc'' then Some asc else if s = ''desc'' then Some desc else None)"

text \<open>\<open>z.coerce.boolean()\<close> applies JavaScript's \<open>Boolean\<close>: a string is true unless empty.\<close>

definition coerce_boolean :: "string \<Rightarrow> bool" where
  "coerce_boolean s = (s \<noteq> [])"

text \<open>\<open>z.coerce.number().min(lo)\<close>, with an optional \<open>max\<close>, and a default.\<close>

definition coerce_number :: "ext \<Rightarrow> int \<Rightarrow> int option \<Rightarrow> int \<Rightarrow> string option \<Rightarrow> int option" where
  "coerce_number X lo hi dflt v =
     (case v of
        None \<Rightarrow> Some dflt
      | Some s \<Rightarrow>
          (case to_number X s of
             None \<Rightarrow> None
           | Some n \<Rightarrow>
               if n < lo then None
               else if (case hi of None \<Rightarrow> False | Some h \<Rightarrow> h < n) then None
               else Some n))"

definition optional_datetime :: "ext \<Rightarrow> string option \<Rightarrow> date option option" where
  "optional_datetime X v =
     (case v of None \<Rightarrow> Some None | Some s \<Rightarrow> map_option Some (iso_datetime X s))"

text \<open>
  The validated query, the output of \<open>listQuerySchema\<close>, which \<open>validate\<close> merges into
  \<open>req.query\<close> with \<open>Object.assign\<close>. As in the body, a validated datetime string is
  carried as its instant.
\<close>

record ListQuery =
  q_search :: "string option"
  q_priority :: "Priority option"
  q_completed :: "bool option"
  q_dueBefore :: "date option"
  q_dueAfter :: "date option"
  q_page :: int
  q_limit :: int
  q_sort :: SortField
  q_order :: SortOrder

definition listQuerySchema :: "ext \<Rightarrow> RawQuery \<Rightarrow> error + ListQuery" where
  "listQuerySchema X rq =
     (case (case raw_priority rq of None \<Rightarrow> Some None
            | Some p \<Rightarrow> map_option Some (priority_enum p)) of
        None \<Rightarrow> Inl ValidationError
      | Some prio \<Rightarrow>
     (case optional_datetime X (raw_dueBefore rq) of
        None \<Rightarrow> Inl ValidationError
      | Some before \<Rightarrow>
     (case optional_datetime X (raw_dueAfter rq) of
        None \<Rightarrow> Inl ValidationError
      | Some after \<Rightarrow>
     (case coerce_number X 1 None 1 (raw_page rq) of
        None \<Rightarrow> Inl ValidationError
      | Some pg \<Rightarrow>
     (case coerce_number X 1 (Some 100) 20 (raw_limit rq) of
        None \<Rightarrow> Inl ValidationError
      | Some lim \<Rightarrow>
     (case (case raw_sort rq of None \<Rightarrow> Some sort_createdAt | Some s \<Rightarrow> sort_enum s) of
        None \<Rightarrow> Inl ValidationError
      | Some srt \<Rightarrow>
     (case (case raw_order rq of None \<Rightarrow> Some desc | Some s \<Rightarrow> order_enum s) of
        None \<Rightarrow> Inl ValidationError
      | Some ord \<Rightarrow>
          Inr \<lparr> q_search = raw_search rq, q_priority = prio,
                q_completed = map_option coerce_boolean (raw_completed rq),
                q_dueBefore = before, q_dueAfter = after,
                q_page = pg, q_limit = lim, q_sort = srt, q_order = ord \<rparr>)))))))"

subsection \<open>services/task.service.ts\<close>

text \<open>
  \<open>Task.create\<close> runs the schema's setters (\<open>trim\<close>) and validators (\<open>title\<close> is
  required, so an empty trimmed title is refused, which surfaces as a 500), stamps
  \<open>createdAt\<close> and \<open>updatedAt\<close>, and appends the document under the fresh id the driver
  generated. The spread \<open>{ ...data, user: userId }\<close> lets \<open>user\<close> come from the caller
  only.
\<close>

definition createTask ::
  "objectId \<Rightarrow> CreateBody \<Rightarrow> objectId \<Rightarrow> date \<Rightarrow> TaskDoc list \<Rightarrow> error + (TaskDoc \<times> TaskDoc list)" where
  "createTask userId data newId now tasks =
     (let doc = \<lparr> task_id = newId, user = userId, title = trim (cb_title data),
                   description = map_option trim (cb_description data),
                   priority = cb_priority data, dueDate = cb_dueDate data,
                   completed = cb_completed data, createdAt = now, updatedAt = now \<rparr>
      in if title doc = [] then Inl ServerError else Inr (doc, tasks @ [doc]))"

record DueRange =
  lte :: "date option"
  gte :: "date option"

record Filter =
  f_user :: objectId
  f_priority :: "Priority option"
  f_completed :: "bool option"
  f_dueDate :: "DueRange option"
  f_text :: "string option"

text \<open>
  The filter of \<open>listTasks\<close>, line by line. \<open>if (priority)\<close>, \<open>if (dueBefore)\<close> and
  \<open>if (dueAfter)\<close> test validated, hence non-empty, strings, so they test presence;
  \<open>if (search)\<close> is false on the empty string as well.
\<close>

definition listFilter :: "objectId \<Rightarrow> ListQuery \<Rightarrow> Filter" where
  "listFilter userId q =
     (let filter0 = \<lparr> f_user = userId, f_priority = None, f_completed = None,
                       f_dueDate = None, f_text = None \<rparr>;
          filter1 = (case q_priority q of None \<Rightarrow> filter0
                     | Some p \<Rightarrow> filter0\<lparr> f_priority := Some p \<rparr>);
          filter2 = (case q_completed q of None \<Rightarrow> filter1
                     | Some c \<Rightarrow> filter1\<lparr> f_completed := Some c \<rparr>);
          filter3 = (case (q_dueBefore q, q_dueAfter q) of
                       (None, None) \<Rightarrow> filter2
                     | _ \<Rightarrow> filter2\<lparr> f_dueDate := Some \<lparr> lte = None, gte = None \<rparr> \<rparr>);
          filter4 = (case q_dueBefore q of None \<Rightarrow> filter3
                     | Some b \<Rightarrow>
                         filter3\<lparr> f_dueDate :=
                           map_option (\<lambda>r. r\<lparr> lte := Some b \<rparr>) (f_dueDate filter3) \<rparr>);
          filter5 = (case q_dueAfter q of None \<Rightarrow> filter4
                     | Some a \<Rightarrow>
                         filter4\<lparr> f_dueDate :=
                           map_option (\<lambda>r. r\<lparr> gte := Some a \<rparr>) (f_dueDate filter4) \<rparr>)
      in (case q_search q of None \<Rightarrow> filter5
          | Some s \<Rightarrow> if s = [] then filter5 else filter5\<lparr> f_text := Some s \<rparr>))"

text \<open>
  How the store reads the filter: all clauses hold together. A range on \<open>dueDate\<close> is
  met only by a document that has a \<open>dueDate\<close>; the literal \<open>{}\<close> would ask for a
  \<open>dueDate\<close> equal to the empty document, which no date is.
\<close>

definition matchesDue :: "DueRange option \<Rightarrow> date option \<Rightarrow> bool" where
  "matchesDue r d =
     (case r of
        None \<Rightarrow> True
      | Some rg \<Rightarrow>
          (case d of
             None \<Rightarrow> False
           | Some v \<Rightarrow>
               (case (lte rg, gte rg) of
                  (None, None) \<Rightarrow> False
                | _ \<Rightarrow> (case lte rg of None \<Rightarrow> True | Some b \<Rightarrow> v \<le> b) \<and>
                       (case gte rg of None \<Rightarrow> True | Some a \<Rightarrow> a \<le> v))))"

definition matches :: "ext \<Rightarrow> Filter \<Rightarrow> TaskDoc \<Rightarrow> bool" where
  "matches X f t =
     (user t = f_user f \<and>
      (case f_priority f of None \<Rightarrow> True | Some p \<Rightarrow> priority t = p) \<and>
      (case f_completed f of None \<Rightarrow> True | Some c \<Rightarrow> completed t = c) \<and>
      matchesDue (f_dueDate f) (dueDate t) \<and>
      (case f_text f of None \<Rightarrow> True | Some s \<Rightarrow> text_search X s (title t) (description t)))"

text \<open>
  \<open>.sort({ [sort]: 1 })\<close> and \<open>-1\<close>. A missing \<open>dueDate\<close> sorts before every date,
  \<open>priority\<close> sorts as the string it is stored as, and documents with equal keys keep
  their natural order.
\<close>

definition sortBy :: "SortOrder \<Rightarrow> ('a \<Rightarrow> 'k::linorder) \<Rightarrow> 'a list \<Rightarrow> 'a list" where
  "sortBy ord k xs = (case ord of asc \<Rightarrow> sort_key k xs | desc \<Rightarrow> rev (sort_key k (rev xs)))"

definition sortTasks :: "SortField \<Rightarrow> SortOrder \<Rightarrow> TaskDoc list \<Rightarrow> TaskDoc list" where
  "sortTasks sf ord xs =
     (case sf of
        sort_createdAt \<Rightarrow> sortBy ord createdAt xs
      | sort_dueDate \<Rightarrow> sortBy ord dueDate xs
      | sort_priority \<Rightarrow> sortBy ord (\<lambda>t. priority_str (priority t)) xs)"

text \<open>
  The store refuses a negative \<open>skip\<close>; a \<open>limit\<close> of 0 is no limit and a negative one
  counts as its absolute value. Neither arises behind \<open>listQuerySchema\<close>. The page and
  the count are two reads of the store; here they read the same collection.
\<close>

definition skipDocs :: "int \<Rightarrow> 'a list \<Rightarrow> error + 'a list" where
  "skipDocs n xs = (if n < 0 then Inl ServerError else Inr (drop (nat n) xs))"

definition limitDocs :: "int \<Rightarrow> 'a list \<Rightarrow> 'a list" where
  "limitDocs n xs = (if n = 0 then xs else take (nat \<bar>n\<bar>) xs)"

record ListResult =
  r_items :: "TaskDoc list"
  r_page :: int
  r_limit :: int
  r_total :: nat

definition listTasks :: "ext \<Rightarrow> objectId \<Rightarrow> ListQuery \<Rightarrow> TaskDoc list \<Rightarrow> error + ListResult" where
  "listTasks X userId q tasks =
     (let filter = listFilter userId q;
          skip = (q_page q - 1) * q_limit q;
          sorted_docs = sortTasks (q_sort q) (q_order q) (List.filter (matches X filter) tasks);
          total = length (List.filter (matches X filter) tasks)
      in (case skipDocs skip sorted_docs of
            Inl e \<Rightarrow> Inl e
          | Inr rest \<Rightarrow>
              Inr \<lparr> r_items = limitDocs (q_limit q) rest, r_page = q_page q,
                    r_limit = q_limit q, r_total = total \<rparr>))"

definition getTask :: "objectId \<Rightarrow> objectId \<Rightarrow> TaskDoc list \<Rightarrow> TaskDoc option" where
  "getTask userId ident tasks = find (\<lambda>t. task_id t = ident \<and> user t = userId) tasks"

text \<open>
  \<open>findOneAndUpdate\<close> with a plain object sets exactly the keys of the patch (through
  the schema's setters) and, the schema having \<open>timestamps\<close>, \<open>updatedAt\<close>.
\<close>

definition applyPatch :: "Patch \<Rightarrow> date \<Rightarrow> TaskDoc \<Rightarrow> TaskDoc" where
  "applyPatch p now t =
     t\<lparr> title := (case p_title p of None \<Rightarrow> title t | Some v \<Rightarrow> trim v),
        description := (case p_description p of None \<Rightarrow> description t
                        | Some v \<Rightarrow> Some (trim v)),
        priority := (case p_priority p of None \<Rightarrow> priority t | Some v \<Rightarrow> v),
        dueDate := (case p_dueDate p of None \<Rightarrow> dueDate t | Some v \<Rightarrow> Some v),
        completed := (case p_completed p of None \<Rightarrow> completed t | Some v \<Rightarrow> v),
        updatedAt := now \<rparr>"

definition updateTask ::
  "objectId \<Rightarrow> objectId \<Rightarrow> Patch \<Rightarrow> date \<Rightarrow> TaskDoc list \<Rightarrow> TaskDoc option \<times> TaskDoc list" where
  "updateTask userId ident patch now tasks =
     (case findOneIndex (\<lambda>t. task_id t = ident \<and> user t = userId) tasks of
        None \<Rightarrow> (None, tasks)
      | Some i \<Rightarrow>
          (let t' = applyPatch patch now (tasks ! i) in (Some t', tasks[i := t'])))"

definition deleteTask :: "objectId \<Rightarrow> objectId \<Rightarrow> TaskDoc list \<Rightarrow> TaskDoc list" where
  "deleteTask userId ident tasks =
     (case findOneIndex (\<lambda>t. task_id t = ident \<and> user t = userId) tasks of
        None \<Rightarrow> tasks
      | Some i \<Rightarrow> deleteAt i tasks)"

subsection \<open>controllers/task.controller.ts and routes/task.routes.ts\<close>

datatype Body = TaskJson TaskDoc | ErrorJson string | NoBody

record Response =
  status :: nat
  body :: Body

definition errorResponse :: "error \<Rightarrow> string \<Rightarrow> Response" where
  "errorResponse e msg = \<lparr> status = status_of e, body = ErrorJson msg \<rparr>"

definition create :: "objectId \<Rightarrow> CreateBody \<Rightarrow> objectId \<Rightarrow> date \<Rightarrow> TaskDoc list \<Rightarrow> Response \<times> TaskDoc list" where
  "create userId data newId now tasks =
     (case createTask userId data newId now tasks of
        Inl e \<Rightarrow> (errorResponse e ''ValidationError'', tasks)
      | Inr (task, tasks') \<Rightarrow> (\<lparr> status = 201, body = TaskJson task \<rparr>, tasks'))"

definition get :: "objectId \<Rightarrow> objectId \<Rightarrow> TaskDoc list \<Rightarrow> Response" where
  "get userId ident tasks =
     (case getTask userId ident tasks of
        None \<Rightarrow> errorResponse NotFound ''NotFound''
      | Some task \<Rightarrow> \<lparr> status = 200, body = TaskJson task \<rparr>)"

definition patch_ctrl :: "objectId \<Rightarrow> objectId \<Rightarrow> Patch \<Rightarrow> date \<Rightarrow> TaskDoc list \<Rightarrow> Response \<times> TaskDoc list" where
  "patch_ctrl userId ident p now tasks =
     (case updateTask userId ident p now tasks of
        (None, tasks') \<Rightarrow> (errorResponse NotFound ''NotFound'', tasks')
      | (Some task, tasks') \<Rightarrow> (\<lparr> status = 200, body = TaskJson task \<rparr>, tasks'))"

definition remove :: "objectId \<Rightarrow> objectId \<Rightarrow> TaskDoc list \<Rightarrow> Response \<times> TaskDoc list" where
  "remove userId ident tasks =
     (let tasks' = deleteTask userId ident tasks
      in (\<lparr> status = 204, body = NoBody \<rparr>, tasks'))"

text \<open>\<open>requireAuth\<close>: the bearer token of the \<open>Authorization\<close> header, verified.\<close>

definition requireAuth :: "ext \<Rightarrow> string option \<Rightarrow> error + AuthUser" where
  "requireAuth X hdr =
     (case hdr of
        None \<Rightarrow> Inl Unauthorized
      | Some h \<Rightarrow>
          if take 7 h = ''Bearer ''
          then (case jwt_verify X (drop 7 h) of
                  None \<Rightarrow> Inl Unauthorized
                | Some u \<Rightarrow> Inr u)
          else Inl Unauthorized)"

text \<open>
  The routes that carry an id or a body: \<open>requireAuth\<close>, then \<open>validate\<close> with the
  route's schema, then the controller with \<open>req.user.id\<close> and the validated
  \<open>req.params\<close> and \<open>req.body\<close>. \<open>GET /tasks\<close> is not composed here: its controller
  reads \<open>req.query\<close> again, and whether it then sees what \<open>validate\<close> merged depends
  on the Express version (in Express 5 \<open>req.query\<close> is a getter that parses the URL anew,
  so the controller sees the raw strings). The schema and \<open>listTasks\<close> are treated on
  their own.
\<close>

definition GET_task :: "ext \<Rightarrow> string option \<Rightarrow> objectId \<Rightarrow> TaskDoc list \<Rightarrow> Response" where
  "GET_task X hdr ident tasks =
     (case requireAuth X hdr of
        Inl e \<Rightarrow> errorResponse e ''Unauthorized''
      | Inr u \<Rightarrow>
          (case idSchema ident of
             Inl e \<Rightarrow> errorResponse e ''ValidationError''
           | Inr i \<Rightarrow> get (au_id u) i tasks))"

definition POST_tasks ::
  "ext \<Rightarrow> string option \<Rightarrow> RawTaskBody \<Rightarrow> objectId \<Rightarrow> date \<Rightarrow> TaskDoc list \<Rightarrow> Response \<times> TaskDoc list" where
  "POST_tasks X hdr rb newId now tasks =
     (case requireAuth X hdr of
        Inl e \<Rightarrow> (errorResponse e ''Unauthorized'', tasks)
      | Inr u \<Rightarrow>
          (case createTaskSchema X rb of
             Inl e \<Rightarrow> (errorResponse e ''ValidationError'', tasks)
           | Inr data \<Rightarrow> create (au_id u) data newId now tasks))"

definition PATCH_task ::
  "ext \<Rightarrow> string option \<Rightarrow> objectId \<Rightarrow> RawTaskBody \<Rightarrow> date \<Rightarrow> TaskDoc list \<Rightarrow> Response \<times> TaskDoc list" where
  "PATCH_task X hdr ident rb now tasks =
     (case requireAuth X hdr of
        Inl e \<Rightarrow> (errorResponse e ''Unauthorized'', tasks)
      | Inr u \<Rightarrow>
          (case updateTaskSchema X ident rb of
             Inl e \<Rightarrow> (errorResponse e ''ValidationError'', tasks)
           | Inr (i, p) \<Rightarrow> patch_ctrl (au_id u) i p now tasks))"

definition DELETE_task ::
  "ext \<Rightarrow> string option \<Rightarrow> objectId \<Rightarrow> TaskDoc list \<Rightarrow> Response \<times> TaskDoc list" where
  "DELETE_task X hdr ident tasks =
     (case requireAuth X hdr of
        Inl e \<Rightarrow> (errorResponse e ''Unauthorized'', tasks)
      | Inr u \<Rightarrow>
          (case idSchema ident of
             Inl e \<Rightarrow> (errorResponse e ''ValidationError'', tasks)
           | Inr i \<Rightarrow> remove (au_id u) i tasks))"

section \<open>Users\<close>

subsection \<open>models/User.ts\<close>

record UserDoc =
  user_id :: objectId
  email :: string
  passwordHash :: string
  name :: "string option"
  themeBackgroundUrl :: "string option"
  passwordResetTokenHash :: "string option"
  passwordResetExpires :: "date option"

text \<open>
  The schema's setters on \<open>email\<close> (\<open>lowercase\<close>, \<open>trim\<close>) also run on the value of a
  query filter.
\<close>

definition castEmail :: "string \<Rightarrow> string" where
  "castEmail e = toLowerCase (trim e)"

subsection \<open>services/auth.service.ts\<close>

record PublicUser =
  pu_id :: objectId
  pu_email :: string
  pu_name :: "string option"

record AuthResult =
  ar_user :: PublicUser
  ar_token :: string

record ForgotResult =
  ok :: bool
  token :: "string option"

definition signToken :: "ext \<Rightarrow> objectId \<Rightarrow> string \<Rightarrow> string option \<Rightarrow> string" where
  "signToken X ident em nm = jwt_sign X ident em nm"

definition authResult :: "ext \<Rightarrow> UserDoc \<Rightarrow> AuthResult" where
  "authResult X u =
     \<lparr> ar_user = \<lparr> pu_id = user_id u, pu_email = email u, pu_name = name u \<rparr>,
       ar_token = signToken X (user_id u) (email u) (name u) \<rparr>"

definition login :: "ext \<Rightarrow> string \<Rightarrow> string \<Rightarrow> UserDoc list \<Rightarrow> error + AuthResult" where
  "login X em password users =
     (case find (\<lambda>u. email u = castEmail em) users of
        None \<Rightarrow> Inl InvalidCredentials
      | Some u \<Rightarrow>
          if bcrypt_compare X password (passwordHash u) then Inr (authResult X u)
          else Inl InvalidCredentials)"

text \<open>
  \<open>rawToken\<close> is the hex string of the 32 random bytes and \<open>now\<close> is \<open>Date.now()\<close>;
  both are inputs of the embedding.
\<close>

definition requestPasswordReset ::
  "ext \<Rightarrow> string \<Rightarrow> string \<Rightarrow> date \<Rightarrow> UserDoc list \<Rightarrow> ForgotResult \<times> UserDoc list" where
  "requestPasswordReset X em rawToken now users =
     (case findOneIndex (\<lambda>u. email u = castEmail em) users of
        None \<Rightarrow> (\<lparr> ok = True, token = None \<rparr>, users)
      | Some i \<Rightarrow>
          (let tokenHash = sha256_hex X rawToken;
               u = (users ! i)\<lparr> passwordResetTokenHash := Some tokenHash,
                                passwordResetExpires := Some (now + 60 * 60 * 1000) \<rparr>;
               users' = users[i := u]
           in if NODE_ENV X = Some ''production''
              then (\<lparr> ok = True, token = None \<rparr>, users')
              else (\<lparr> ok = True, token = Some rawToken \<rparr>, users')))"

text \<open>
  The lookup of \<open>resetPassword\<close>: the stored hash equals the hash of the presented
  token and the stored expiry is \<open>$gt\<close> the time of the call.
\<close>

definition resetLookup :: "string \<Rightarrow> date \<Rightarrow> UserDoc \<Rightarrow> bool" where
  "resetLookup tokenHash now u =
     (passwordResetTokenHash u = Some tokenHash \<and>
      (case passwordResetExpires u of None \<Rightarrow> False | Some e \<Rightarrow> now < e))"

definition resetPassword ::
  "ext \<Rightarrow> string \<Rightarrow> string \<Rightarrow> string option \<Rightarrow> date \<Rightarrow> UserDoc list
     \<Rightarrow> (error + AuthResult) \<times> UserDoc list" where
  "resetPassword X rawToken newPassword nm now users =
     (let tokenHash = sha256_hex X rawToken
      in (case findOneIndex (resetLookup tokenHash now) users of
            None \<Rightarrow> (Inl InvalidOrExpiredResetToken, users)
          | Some i \<Rightarrow>
              (let u1 = (users ! i)\<lparr> passwordHash := bcrypt_hash X newPassword \<rparr>;
                   u2 = (case nm of
                           None \<Rightarrow> u1
                         | Some n \<Rightarrow> if length (trim n) > 0 then u1\<lparr> name := Some (trim n) \<rparr>
                                     else u1);
                   u3 = u2\<lparr> passwordResetTokenHash := None, passwordResetExpires := None \<rparr>
               in (Inr (authResult X u3), users[i := u3]))))"

section \<open>A stand-in for the libraries\<close>

text \<open>
  Concrete functions in the place of the libraries, for running the definitions on
  explicit requests: a tagging digest, a bearer token that is the caller's id, a text
  index that looks for the search string at the start of the title, and decimal integers
  for both numbers and instants.
\<close>

definition digit_of :: "char \<Rightarrow> int option" where
  "digit_of c =
     (let n = (of_char c :: nat) in if 48 \<le> n \<and> n \<le> 57 then Some (int n - 48) else None)"

fun decimal_acc :: "int \<Rightarrow> string \<Rightarrow> int option" where
  "decimal_acc a [] = Some a"
| "decimal_acc a (c # cs) =
     (case digit_of c of None \<Rightarrow> None | Some d \<Rightarrow> decimal_acc (10 * a + d) cs)"

definition decimal :: "string \<Rightarrow> int option" where
  "decimal s = (if s = [] then None else decimal_acc 0 s)"

definition test_ext :: ext where
  "test_ext =
     \<lparr> sha256_hex = (\<lambda>s. ''sha:'' @ s),
       bcrypt_hash = (\<lambda>s. ''bcrypt:'' @ s),
       bcrypt_compare = (\<lambda>p h. h = ''bcrypt:'' @ p),
       jwt_sign = (\<lambda>i e n. i),
       jwt_verify = (\<lambda>t. if t = [] then None
                          else Some \<lparr> au_id = t, au_email = [], au_name = None \<rparr>),
       text_search = (\<lambda>s t d. take (length s) t = s),
       iso_datetime = decimal,
       to_number = decimal,
       NODE_ENV = None \<rparr>"

section \<open>Properties of a listing, and example documents\<close>

text \<open>The order the caller asked for, as a property of a list of tasks.\<close>

definition inOrder :: "SortOrder \<Rightarrow> ('a \<Rightarrow> 'k::linorder) \<Rightarrow> 'a list \<Rightarrow> bool" where
  "inOrder ord k xs = (case ord of asc \<Rightarrow> sorted (map k xs) | desc \<Rightarrow> sorted (rev (map k xs)))"

definition tasksInOrder :: "SortField \<Rightarrow> SortOrder \<Rightarrow> TaskDoc list \<Rightarrow> bool" where
  "tasksInOrder sf ord xs =
     (case sf of
        sort_createdAt \<Rightarrow> inOrder ord createdAt xs
      | sort_dueDate \<Rightarrow> inOrder ord dueDate xs
      | sort_priority \<Rightarrow> inOrder ord (\<lambda>t. priority_str (priority t)) xs)"

text \<open>A query string without parameters, and what \<open>listQuerySchema\<close> makes of it.\<close>

definition emptyQuery :: RawQuery where
  "emptyQuery =
     \<lparr> raw_search = None, raw_priority = None, raw_completed = None, raw_dueBefore = None,
       raw_dueAfter = None, raw_page = None, raw_limit = None, raw_sort = None,
       raw_order = None \<rparr>"

definition defaultQuery :: ListQuery where
  "defaultQuery =
     \<lparr> q_search = None, q_priority = None, q_completed = None, q_dueBefore = None,
       q_dueAfter = None, q_page = 1, q_limit = 20, q_sort = sort_createdAt, q_order = desc \<rparr>"

text \<open>The body \<open>{completed: true}\<close>.\<close>

definition completedPatch :: RawTaskBody where
  "completedPatch = \<lparr> rb_title = None, rb_description = None, rb_priority = None,
                       rb_dueDate = None, rb_completed = Some True \<rparr>"

definition rawBodyA :: RawTaskBody where
  "rawBodyA = \<lparr> rb_title = Some ''A'', rb_description = None, rb_priority = None,
                rb_dueDate = Some ''500'', rb_completed = None \<rparr>"

definition bodyA :: CreateBody where
  "bodyA = \<lparr> cb_title = ''A'', cb_description = None, cb_priority = medium,
             cb_dueDate = Some 500, cb_completed = False \<rparr>"

definition taskA :: TaskDoc where
  "taskA = \<lparr> task_id = ''a1'', user = ''u1'', title = ''A'', description = None,
             priority = medium, dueDate = Some 500, completed = False,
             createdAt = 100, updatedAt = 100 \<rparr>"

definition taskB :: TaskDoc where
  "taskB = \<lparr> task_id = ''b2'', user = ''u1'', title = ''B'', description = Some ''second'',
             priority = high, dueDate = None, completed = False,
             createdAt = 200, updatedAt = 200 \<rparr>"

definition taskC :: TaskDoc where
  "taskC = \<lparr> task_id = ''c3'', user = ''u1'', title = ''C'', description = None,
             priority = low, dueDate = Some 900, completed = True,
             createdAt = 300, updatedAt = 300 \<rparr>"

definition taskZ :: TaskDoc where
  "taskZ = \<lparr> task_id = ''z9'', user = ''u2'', title = ''Z'', description = None,
             priority = medium, dueDate = None, completed = False,
             createdAt = 150, updatedAt = 150 \<rparr>"

definition alice :: UserDoc where
  "alice = \<lparr> user_id = ''u1'', email = ''alice@example.com'', passwordHash = ''bcrypt:secret'',
             name = Some ''Alice'', themeBackgroundUrl = None,
             passwordResetTokenHash = None, passwordResetExpires = None \<rparr>"

definition bob :: UserDoc where
  "bob = \<lparr> user_id = ''u2'', email = ''bob@example.com'', passwordHash = ''bcrypt:hunter2'',
           name = None, themeBackgroundUrl = None,
           passwordResetTokenHash = None, passwordResetExpires = None \<rparr>"

text \<open>Alice after a reset request at instant 1000 with token \<open>r1\<close>, after a second one
  at 2000 with token \<open>r2\<close>, and after the reset to a new password.\<close>

definition aliceReset :: UserDoc where
  "aliceReset = alice\<lparr> passwordResetTokenHash := Some ''sha:r1'',
                       passwordResetExpires := Some 3601000 \<rparr>"

definition aliceSecond :: UserDoc where
  "aliceSecond = alice\<lparr> passwordResetTokenHash := Some ''sha:r2'',
                        passwordResetExpires := Some 3602000 \<rparr>"

definition aliceDone :: UserDoc where
  "aliceDone = alice\<lparr> passwordHash := ''bcrypt:newpw'' \<rparr>"

text \<open>The stand-in libraries in a production deployment.\<close>

definition prod_ext :: ext where
  "prod_ext = test_ext\<lparr> NODE_ENV := Some ''production'' \<rparr>"

lemmas user_defs = alice_def bob_def aliceReset_def aliceDone_def

lemmas ex_defs = taskA_def taskB_def taskC_def taskZ_def bodyA_def defaultQuery_def

lemmas eval_defs =
  requireAuth_def test_ext_def listQuerySchema_def optional_datetime_def
  coerce_number_def coerce_boolean_def decimal_def digit_of_def listTasks_def
  Let_def listFilter_def matches_def matchesDue_def sortTasks_def sortBy_def skipDocs_def
  limitDocs_def

section \<open>Facts about the store\<close>

lemma findOneIndex_Some:
  "findOneIndex P xs = Some i \<Longrightarrow> i < length xs \<and> P (xs ! i) \<and> (\<forall>j<i. \<not> P (xs ! j))"
proof (induction xs arbitrary: i)
  case Nil
  then show ?case by simp
next
  case (Cons x xs)
  show ?case
  proof (cases "P x")
    case True
    with Cons.prems show ?thesis by simp
  next
    case False
    with Cons.prems obtain k where k: "findOneIndex P xs = Some k" "i = Suc k"
      by auto
    from Cons.IH [OF k(1)] False k(2) show ?thesis
      by (auto simp: nth_Cons split: nat.splits)
  qed
qed

lemma findOneIndex_None: "findOneIndex P xs = None \<longleftrightarrow> (\<forall>x\<in>set xs. \<not> P x)"
  by (induction xs) auto

lemma findOneIndex_find:
  "find P xs = map_option (\<lambda>i. xs ! i) (findOneIndex P xs)"
  by (induction xs) (auto simp: option.map_comp comp_def)

lemma findOneIndex_eqI:
  "i < length xs \<Longrightarrow> P (xs ! i) \<Longrightarrow> (\<forall>j<i. \<not> P (xs ! j)) \<Longrightarrow> findOneIndex P xs = Some i"
proof (induction xs arbitrary: i)
  case Nil
  then show ?case by simp
next
  case (Cons x xs)
  show ?case
  proof (cases i)
    case 0
    with Cons.prems show ?thesis by simp
  next
    case (Suc k)
    with Cons.prems have "\<not> P x" by auto
    moreover from Suc Cons.prems have "findOneIndex P xs = Some k"
      by (intro Cons.IH) auto
    ultimately show ?thesis using Suc by simp
  qed
qed

lemma findOneIndex_cong:
  "length xs = length ys \<Longrightarrow> (\<forall>j < length xs. P (xs ! j) = Q (ys ! j)) \<Longrightarrow>
   findOneIndex P xs = findOneIndex Q ys"
proof (induction xs ys rule: list_induct2)
  case Nil
  then show ?case by simp
next
  case (Cons x xs y ys)
  from Cons.prems have "P x = Q y" by auto
  moreover from Cons.prems have "\<forall>j < length xs. P (xs ! j) = Q (ys ! j)" by auto
  ultimately show ?case using Cons.IH by simp
qed

lemma find_app:
  "find P (xs @ ys) = (case find P xs of None \<Rightarrow> find P ys | Some x \<Rightarrow> Some x)"
  by (induction xs) auto

subsection \<open>The filter and the page\<close>

lemma listFilter_fields:
  "f_user (listFilter userId q) = userId"
  "f_priority (listFilter userId q) = q_priority q"
  "f_completed (listFilter userId q) = q_completed q"
  "f_dueDate (listFilter userId q) =
     (case (q_dueBefore q, q_dueAfter q) of
        (None, None) \<Rightarrow> None
      | _ \<Rightarrow> Some \<lparr> lte = q_dueBefore q, gte = q_dueAfter q \<rparr>)"
  "f_text (listFilter userId q) =
     (case q_search q of None \<Rightarrow> None | Some s \<Rightarrow> if s = [] then None else Some s)"
  by (simp_all add: listFilter_def Let_def split: option.splits)

lemma matches_owner: "matches X (listFilter userId q) t \<Longrightarrow> user t = userId"
  by (simp add: matches_def listFilter_fields)

lemma listQuerySchema_empty: "listQuerySchema X emptyQuery = Inr defaultQuery"
  by (simp add: listQuerySchema_def emptyQuery_def defaultQuery_def optional_datetime_def
      coerce_number_def)

lemma getTask_owner:
  "getTask caller ident store = Some t \<Longrightarrow> user t = caller \<and> task_id t = ident \<and> t \<in> set store"
  by (auto simp: getTask_def find_Some_iff)

lemma limitDocs_subset: "set (limitDocs n xs) \<subseteq> set xs"
  by (auto simp: limitDocs_def dest: in_set_takeD)

lemma sortBy_set: "set (sortBy ord k xs) = set xs"
  by (cases ord) (simp_all add: sortBy_def)

lemma sortTasks_set: "set (sortTasks sf ord xs) = set xs"
  by (cases sf) (simp_all add: sortTasks_def sortBy_set)

lemma listTasks_items_match:
  assumes "listTasks X caller q store = Inr r" "d \<in> set (r_items r)"
  shows "d \<in> set store \<and> matches X (listFilter caller q) d"
proof -
  from assms(1) obtain rest where
    rest: "skipDocs ((q_page q - 1) * q_limit q)
             (sortTasks (q_sort q) (q_order q) (filter (matches X (listFilter caller q)) store)) = Inr rest"
    and r: "r_items r = limitDocs (q_limit q) rest"
    by (auto simp: listTasks_def Let_def split: sum.splits)
  from rest have "set rest \<subseteq> set (filter (matches X (listFilter caller q)) store)"
    by (auto simp: skipDocs_def sortTasks_set split: if_splits dest: in_set_dropD)
  with assms(2) r limitDocs_subset [of "q_limit q" rest] show ?thesis
    by auto
qed

lemma sortBy_inOrder: "inOrder ord k (sortBy ord k xs)"
  by (cases ord) (simp_all add: inOrder_def sortBy_def rev_map)

lemma sortBy_mset: "mset (sortBy ord k xs) = mset xs"
  by (cases ord) (simp_all add: sortBy_def)

lemma sortTasks_inOrder: "tasksInOrder sf ord (sortTasks sf ord xs)"
  by (cases sf) (simp_all add: tasksInOrder_def sortTasks_def sortBy_inOrder)

lemma sortTasks_mset: "mset (sortTasks sf ord xs) = mset xs"
  by (cases sf) (simp_all add: sortTasks_def sortBy_mset)

lemma sorted_rev_drop: "sorted (rev xs) \<Longrightarrow> sorted (rev (drop n xs))"
  by (simp add: rev_drop sorted_wrt_take)

lemma sorted_rev_take: "sorted (rev xs) \<Longrightarrow> sorted (rev (take n xs))"
  by (simp add: rev_take sorted_wrt_drop)

lemma inOrder_slice: "inOrder ord k xs \<Longrightarrow> inOrder ord k (take m (drop n xs))"
  by (cases ord)
     (simp_all add: inOrder_def take_map [symmetric] drop_map [symmetric]
        sorted_wrt_take sorted_wrt_drop sorted_rev_drop sorted_rev_take del: take_map drop_map)

lemma tasksInOrder_slice: "tasksInOrder sf ord xs \<Longrightarrow> tasksInOrder sf ord (take m (drop n xs))"
  by (cases sf) (simp_all add: tasksInOrder_def inOrder_slice)

lemma listTasks_page:
  assumes "1 \<le> q_page q" "1 \<le> q_limit q"
  shows "listTasks X userId q tasks =
     Inr \<lparr> r_items = take (nat (q_limit q)) (drop (nat (q_page q - 1) * nat (q_limit q))
                        (sortTasks (q_sort q) (q_order q)
                           (filter (matches X (listFilter userId q)) tasks))),
           r_page = q_page q, r_limit = q_limit q,
           r_total = length (filter (matches X (listFilter userId q)) tasks) \<rparr>"
proof -
  from assms have "0 \<le> (q_page q - 1) * q_limit q" by simp
  moreover from assms have "nat ((q_page q - 1) * q_limit q) = nat (q_page q - 1) * nat (q_limit q)"
    by (simp add: nat_mult_distrib)
  moreover from assms have "q_limit q \<noteq> 0" "nat \<bar>q_limit q\<bar> = nat (q_limit q)" by simp_all
  ultimately show ?thesis
    by (simp add: listTasks_def Let_def skipDocs_def limitDocs_def)
qed

lemma sort_three:
  assumes m: "mset xs = {#a, b, c#}" and k: "k a < k b" "k b < k c"
  shows "sort_key k xs = [a, b, c]"
proof (rule properties_for_sort_key)
  show "mset [a, b, c] = mset xs" using m by simp
  show "sorted (map k [a, b, c])" using k by auto
  fix x assume x: "x \<in> set [a, b, c]"
  have "mset (filter (\<lambda>y. k x = k y) xs) = filter_mset (\<lambda>y. k x = k y) {#a, b, c#}"
    using m by (metis mset_filter)
  also have "\<dots> = mset (filter (\<lambda>y. k x = k y) [a, b, c])"
    by simp
  finally have e: "mset (filter (\<lambda>y. k x = k y) xs) = mset (filter (\<lambda>y. k x = k y) [a, b, c])" .
  from x k have one: "filter (\<lambda>y. k x = k y) [a, b, c] = [x]"
    by auto
  with e have "mset (filter (\<lambda>y. k x = k y) xs) = {#x#}" by simp
  then have "filter (\<lambda>y. k x = k y) xs = [x]"
    by (metis mset_single_iff_right)
  with one show "filter (\<lambda>y. k x = k y) [a, b, c] = filter (\<lambda>y. k x = k y) xs" by simp
qed

lemma coerce_number_bounds:
  assumes "coerce_number X lo hi dflt v = Some n" "lo \<le> dflt"
  shows "lo \<le> n"
  using assms by (auto simp: coerce_number_def split: option.splits if_splits)

lemma coerce_number_max:
  assumes "coerce_number X lo (Some h) dflt v = Some n" "dflt \<le> h"
  shows "n \<le> h"
  using assms by (auto simp: coerce_number_def split: option.splits if_splits)

lemma listQuerySchema_numbers:
  "listQuerySchema X rq = Inr q \<Longrightarrow>
   coerce_number X 1 None 1 (raw_page rq) = Some (q_page q) \<and>
   coerce_number X 1 (Some 100) 20 (raw_limit rq) = Some (q_limit q)"
  unfolding listQuerySchema_def
  by (cases "coerce_number X 1 None 1 (raw_page rq)";
      cases "coerce_number X 1 (Some 100) 20 (raw_limit rq)")
     (auto split: option.splits)

lemma listQuerySchema_bounds:
  assumes "listQuerySchema X rq = Inr q"
  shows "1 \<le> q_page q \<and> 1 \<le> q_limit q \<and> q_limit q \<le> 100"
  using listQuerySchema_numbers [OF assms]
    coerce_number_bounds [of X 1 None 1 "raw_page rq" "q_page q"]
    coerce_number_bounds [of X 1 "Some 100" 20 "raw_limit rq" "q_limit q"]
    coerce_number_max [of X 1 100 20 "raw_limit rq" "q_limit q"]
  by simp

lemma POST_tasks_created:
  assumes "POST_tasks X hdr rb newId now tasks = (resp, tasks')" "status resp = 201"
  shows "\<exists>u t. requireAuth X hdr = Inr u \<and> body resp = TaskJson t \<and> user t = au_id u \<and>
           tasks' = tasks @ [t]"
proof (cases "requireAuth X hdr")
  case (Inl e)
  with assms show ?thesis
    by (cases e) (auto simp: POST_tasks_def errorResponse_def)
next
  case (Inr u)
  show ?thesis
  proof (cases "createTaskSchema X rb")
    case (Inl e)
    then have "e = ValidationError"
      by (auto simp: createTaskSchema_def split: option.splits if_splits)
    with Inl Inr assms show ?thesis
      by (auto simp: POST_tasks_def errorResponse_def)
  next
    case data: (Inr data)
    show ?thesis
    proof (cases "createTask (au_id u) data newId now tasks")
      case (Inl e)
      then have "e = ServerError"
        by (auto simp: createTask_def Let_def split: if_splits)
      with Inl Inr data assms show ?thesis
        by (auto simp: POST_tasks_def create_def errorResponse_def)
    next
      case c: (Inr p)
      obtain t ts where p: "p = (t, ts)" by (cases p)
      with c have "user t = au_id u" "ts = tasks @ [t]"
        by (auto simp: createTask_def Let_def split: if_splits)
      with Inr data c p assms show ?thesis
        by (auto simp: POST_tasks_def create_def)
    qed
  qed
qed

subsection \<open>The patch\<close>

lemma updateTaskSchema_completed:
  "ident \<noteq> [] \<Longrightarrow>
   updateTaskSchema X ident completedPatch =
     Inr (ident, \<lparr> p_title = None, p_description = None, p_priority = None,
                   p_dueDate = None, p_completed = Some True \<rparr>)"
  by (simp add: updateTaskSchema_def completedPatch_def)

lemma applyPatch_frame:
  "task_id (applyPatch p now t) = task_id t"
  "user (applyPatch p now t) = user t"
  "createdAt (applyPatch p now t) = createdAt t"
  "p_title p = None \<Longrightarrow> title (applyPatch p now t) = title t"
  "p_description p = None \<Longrightarrow> description (applyPatch p now t) = description t"
  "p_priority p = None \<Longrightarrow> priority (applyPatch p now t) = priority t"
  "p_dueDate p = None \<Longrightarrow> dueDate (applyPatch p now t) = dueDate t"
  "p_completed p = None \<Longrightarrow> completed (applyPatch p now t) = completed t"
  by (simp_all add: applyPatch_def)

lemma applyPatch_completed:
  "applyPatch \<lparr> p_title = None, p_description = None, p_priority = None,
                p_dueDate = None, p_completed = Some True \<rparr> now t =
   t\<lparr> completed := True, updatedAt := now \<rparr>"
  by (simp add: applyPatch_def)

section \<open>Claims about tasks\<close>

text \<open>
  C1. A created task carries the caller's id as its owner; \<open>getTask\<close> and \<open>listTasks\<close>
  return a task only to the caller whose id is the task's owner. In particular the task
  just created under a fresh id is found by its owner and by no other caller. At the
  route, a \<open>POST /tasks\<close> answered with 201 has stored a task owned by the user that
  \<open>requireAuth\<close> read from the bearer token.
\<close>

theorem owner_scope:
  "(createTask owner data newId now tasks = Inr (t, tasks') \<longrightarrow>
      user t = owner \<and> task_id t = newId \<and> tasks' = tasks @ [t] \<and>
      (newId \<notin> task_id ` set tasks \<longrightarrow>
         getTask owner newId tasks' = Some t \<and>
         (caller \<noteq> owner \<longrightarrow> getTask caller newId tasks' = None))) \<and>
   (getTask caller ident store = Some t' \<longrightarrow> user t' = caller \<and> t' \<in> set store) \<and>
   (listTasks X caller q store = Inr r \<longrightarrow>
      (\<forall>d \<in> set (r_items r). user d = caller \<and> d \<in> set store)) \<and>
   (POST_tasks X hdr rb newId now tasks = (resp, tasks2) \<and> status resp = 201 \<longrightarrow>
      (\<exists>u d. requireAuth X hdr = Inr u \<and> body resp = TaskJson d \<and> user d = au_id u \<and>
         tasks2 = tasks @ [d]))"
proof (intro conjI impI)
  assume "POST_tasks X hdr rb newId now tasks = (resp, tasks2) \<and> status resp = 201"
  then show "\<exists>u d. requireAuth X hdr = Inr u \<and> body resp = TaskJson d \<and> user d = au_id u \<and>
         tasks2 = tasks @ [d]"
    using POST_tasks_created by blast
next
  assume c: "createTask owner data newId now tasks = Inr (t, tasks')"
  then show u: "user t = owner" and i: "task_id t = newId" and s: "tasks' = tasks @ [t]"
    by (auto simp: createTask_def Let_def split: if_splits)
  assume fresh: "newId \<notin> task_id ` set tasks"
  then have none: "\<And>c. find (\<lambda>d. task_id d = newId \<and> user d = c) tasks = None"
    by (auto simp: find_None_iff)
  show "getTask owner newId tasks' = Some t"
    using none u i s by (simp add: getTask_def find_app)
  assume "caller \<noteq> owner"
  then show "getTask caller newId tasks' = None"
    using none u i s by (simp add: getTask_def find_app)
next
  assume "getTask caller ident store = Some t'"
  then show "user t' = caller" "t' \<in> set store"
    using getTask_owner by blast+
next
  assume "listTasks X caller q store = Inr r"
  then show "\<forall>d \<in> set (r_items r). user d = caller \<and> d \<in> set store"
    using listTasks_items_match matches_owner by blast
qed

theorem owner_scope_witness:
  "createTask ''u1'' bodyA ''a1'' 100 [taskZ] = Inr (taskA, [taskZ, taskA]) \<and>
   user taskA = ''u1'' \<and>
   ''a1'' \<notin> task_id ` set [taskZ] \<and>
   getTask ''u1'' ''a1'' [taskZ, taskA] = Some taskA \<and>
   getTask ''u2'' ''a1'' [taskZ, taskA] = None \<and>
   listTasks test_ext ''u2'' defaultQuery [taskZ, taskA] =
     Inr \<lparr> r_items = [taskZ], r_page = 1, r_limit = 20, r_total = 1 \<rparr> \<and>
   user taskZ = ''u2'' \<and>
   POST_tasks test_ext (Some ''Bearer u1'') rawBodyA ''a1'' 100 [taskZ] =
     (\<lparr> status = 201, body = TaskJson taskA \<rparr>, [taskZ, taskA])"
proof -
  have s: "createTaskSchema test_ext rawBodyA = Inr bodyA"
    by (simp add: createTaskSchema_def rawBodyA_def bodyA_def test_ext_def decimal_def
        digit_of_def)
  have a: "requireAuth test_ext (Some ''Bearer u1'') =
             Inr \<lparr> au_id = ''u1'', au_email = [], au_name = None \<rparr>"
    by (simp add: requireAuth_def test_ext_def)
  have c: "createTask ''u1'' bodyA ''a1'' 100 [taskZ] = Inr (taskA, [taskZ, taskA])"
    by (simp add: createTask_def Let_def ex_defs trim_def is_space_def)
  have f: "''a1'' \<notin> task_id ` set [taskZ]"
    by (simp add: ex_defs)
  have l: "listTasks test_ext ''u2'' defaultQuery [taskZ, taskA] =
     Inr \<lparr> r_items = [taskZ], r_page = 1, r_limit = 20, r_total = 1 \<rparr>"
    by (simp add: listTasks_def Let_def listFilter_def matches_def matchesDue_def sortTasks_def
        sortBy_def skipDocs_def limitDocs_def ex_defs)
  have p: "POST_tasks test_ext (Some ''Bearer u1'') rawBodyA ''a1'' 100 [taskZ] =
     (\<lparr> status = 201, body = TaskJson taskA \<rparr>, [taskZ, taskA])"
    using a s c by (simp add: POST_tasks_def create_def)
  show ?thesis
    using c f l p
      owner_scope [of "''u1''" bodyA "''a1''" 100 "[taskZ]" taskA "[taskZ, taskA]" "''u2''"
        "''a1''" "[taskZ, taskA]" taskA test_ext defaultQuery
        "\<lparr> r_items = [taskZ], r_page = 1, r_limit = 20, r_total = 1 \<rparr>"]
    by simp
qed

text \<open>
  C6, as the claim states it: \<open>DELETE /tasks/:id\<close> on another user's task answers 401 or
  404. It answers 204: caller \<open>u2\<close> deletes task \<open>a1\<close> of \<open>u1\<close>.
\<close>

theorem delete_foreign_status_counterexample:
  "user taskA = ''u1'' \<and> task_id taskA = ''a1'' \<and>
   status (fst (DELETE_task test_ext (Some ''Bearer u2'') ''a1'' [taskA])) = 204 \<and>
   \<not> (status (fst (DELETE_task test_ext (Some ''Bearer u2'') ''a1'' [taskA])) = 401 \<or>
      status (fst (DELETE_task test_ext (Some ''Bearer u2'') ''a1'' [taskA])) = 404)"
  by (simp add: DELETE_task_def Let_def requireAuth_def test_ext_def idSchema_def remove_def
      deleteTask_def ex_defs)

text \<open>
  C6, amended: for an authenticated caller, \<open>DELETE /tasks/:id\<close> on a task that another
  user owns answers 204 with no body, and the task store is unchanged.
\<close>

theorem delete_foreign_task:
  assumes auth: "requireAuth X hdr = Inr u"
    and ids: "distinct (map task_id tasks)"
    and t: "t \<in> set tasks" "task_id t = ident" "ident \<noteq> []"
    and foreign: "user t \<noteq> au_id u"
  shows "DELETE_task X hdr ident tasks = (\<lparr> status = 204, body = NoBody \<rparr>, tasks)"
proof -
  have "\<forall>d \<in> set tasks. \<not> (task_id d = ident \<and> user d = au_id u)"
  proof
    fix d assume d: "d \<in> set tasks"
    show "\<not> (task_id d = ident \<and> user d = au_id u)"
    proof
      assume "task_id d = ident \<and> user d = au_id u"
      with t(2) have "task_id d = task_id t" "user d = au_id u" by simp_all
      with ids d t(1) have "d = t"
        by (meson distinct_map inj_onD)
      with \<open>user d = au_id u\<close> foreign show False by simp
    qed
  qed
  then have "findOneIndex (\<lambda>d. task_id d = ident \<and> user d = au_id u) tasks = None"
    by (simp add: findOneIndex_None)
  then have "deleteTask (au_id u) ident tasks = tasks"
    by (simp add: deleteTask_def)
  with auth t(3) show ?thesis
    by (simp add: DELETE_task_def idSchema_def remove_def Let_def)
qed

theorem delete_foreign_task_witness:
  "requireAuth test_ext (Some ''Bearer u2'') = Inr \<lparr> au_id = ''u2'', au_email = [], au_name = None \<rparr> \<and>
   distinct (map task_id [taskZ, taskA]) \<and> taskA \<in> set [taskZ, taskA] \<and>
   user taskA \<noteq> ''u2'' \<and>
   DELETE_task test_ext (Some ''Bearer u2'') ''a1'' [taskZ, taskA] =
     (\<lparr> status = 204, body = NoBody \<rparr>, [taskZ, taskA])"
proof -
  have a: "requireAuth test_ext (Some ''Bearer u2'') =
             Inr \<lparr> au_id = ''u2'', au_email = [], au_name = None \<rparr>"
    by (simp add: requireAuth_def test_ext_def)
  have d: "distinct (map task_id [taskZ, taskA])" and m: "taskA \<in> set [taskZ, taskA]"
    and i: "task_id taskA = ''a1''" and n: "''a1'' \<noteq> []"
    and f: "user taskA \<noteq> au_id \<lparr> au_id = ''u2'', au_email = [], au_name = None \<rparr>"
    by (simp_all add: ex_defs)
  from delete_foreign_task [OF a d m i n f] a d m f show ?thesis
    by simp
qed

text \<open>
  C7. With \<open>page \<ge> 1\<close> and \<open>limit \<ge> 1\<close>, as the schema guarantees, \<open>listTasks\<close> returns:
  the matching tasks put in the requested order, with the first \<open>(page - 1) * limit\<close>
  of them skipped and at most \<open>limit\<close> kept, and the number of all matching tasks as the
  total. An owner whose tasks are exactly A, B, C, created at increasing instants, gets
  \<open>[B]\<close> and a total of 3 for page 2, limit 1, sort \<open>createdAt\<close>, order \<open>asc\<close>, however
  the store lays the documents out.
\<close>

theorem pagination:
  "(1 \<le> q_page q \<and> 1 \<le> q_limit q \<longrightarrow>
      (\<exists>r sorted_docs.
         listTasks X userId q tasks = Inr r \<and>
         mset sorted_docs = mset (filter (matches X (listFilter userId q)) tasks) \<and>
         tasksInOrder (q_sort q) (q_order q) sorted_docs \<and>
         r_items r = take (nat (q_limit q)) (drop (nat (q_page q - 1) * nat (q_limit q)) sorted_docs) \<and>
         tasksInOrder (q_sort q) (q_order q) (r_items r) \<and>
         int (length (r_items r)) \<le> q_limit q \<and>
         r_total r = length (filter (matches X (listFilter userId q)) tasks) \<and>
         r_page r = q_page q \<and> r_limit r = q_limit q)) \<and>
   (mset (filter (\<lambda>t. user t = userId) tasks) = {#A, B, C#} \<and>
    createdAt A < createdAt B \<and> createdAt B < createdAt C \<longrightarrow>
      listTasks X userId
        \<lparr> q_search = None, q_priority = None, q_completed = None, q_dueBefore = None,
          q_dueAfter = None, q_page = 2, q_limit = 1, q_sort = sort_createdAt, q_order = asc \<rparr>
        tasks =
      Inr \<lparr> r_items = [B], r_page = 2, r_limit = 1, r_total = 3 \<rparr>) \<and>
   (listQuerySchema X rq = Inr vq \<longrightarrow> 1 \<le> q_page vq \<and> 1 \<le> q_limit vq \<and> q_limit vq \<le> 100)"
proof (intro conjI impI)
  assume "listQuerySchema X rq = Inr vq"
  then show "1 \<le> q_page vq" "1 \<le> q_limit vq" "q_limit vq \<le> 100"
    using listQuerySchema_bounds by blast+
next
  assume a: "1 \<le> q_page q \<and> 1 \<le> q_limit q"
  let ?ms = "filter (matches X (listFilter userId q)) tasks"
  let ?sd = "sortTasks (q_sort q) (q_order q) ?ms"
  let ?r = "\<lparr> r_items = take (nat (q_limit q)) (drop (nat (q_page q - 1) * nat (q_limit q)) ?sd),
             r_page = q_page q, r_limit = q_limit q, r_total = length ?ms \<rparr>"
  have 1: "listTasks X userId q tasks = Inr ?r"
    using a by (simp add: listTasks_page)
  have 2: "mset ?sd = mset ?ms" by (rule sortTasks_mset)
  have 3: "tasksInOrder (q_sort q) (q_order q) ?sd" by (rule sortTasks_inOrder)
  have 4: "tasksInOrder (q_sort q) (q_order q) (r_items ?r)"
    using 3 by (simp add: tasksInOrder_slice)
  have "length (r_items ?r) \<le> nat (q_limit q)"
    by simp
  then have 5: "int (length (r_items ?r)) \<le> q_limit q"
    using a by linarith
  show "\<exists>r sorted_docs.
         listTasks X userId q tasks = Inr r \<and>
         mset sorted_docs = mset (filter (matches X (listFilter userId q)) tasks) \<and>
         tasksInOrder (q_sort q) (q_order q) sorted_docs \<and>
         r_items r = take (nat (q_limit q)) (drop (nat (q_page q - 1) * nat (q_limit q)) sorted_docs) \<and>
         tasksInOrder (q_sort q) (q_order q) (r_items r) \<and>
         int (length (r_items r)) \<le> q_limit q \<and>
         r_total r = length (filter (matches X (listFilter userId q)) tasks) \<and>
         r_page r = q_page q \<and> r_limit r = q_limit q"
    apply (rule exI [of _ ?r])
    apply (rule exI [of _ ?sd])
    using 1 2 3 4 5 by simp
next
  assume abc: "mset (filter (\<lambda>t. user t = userId) tasks) = {#A, B, C#} \<and>
    createdAt A < createdAt B \<and> createdAt B < createdAt C"
  let ?q = "\<lparr> q_search = None, q_priority = None, q_completed = None, q_dueBefore = None,
          q_dueAfter = None, q_page = 2, q_limit = 1, q_sort = sort_createdAt, q_order = asc \<rparr>"
  have m: "matches X (listFilter userId ?q) = (\<lambda>t. user t = userId)"
    by (rule ext) (simp add: matches_def listFilter_fields matchesDue_def)
  have s: "sort_key createdAt (filter (\<lambda>t. user t = userId) tasks) = [A, B, C]"
    using abc by (intro sort_three) simp_all
  have l: "length (filter (\<lambda>t. user t = userId) tasks) = 3"
    using abc by (metis length_sort s length_Cons list.size(3) numeral_3_eq_3)
  show "listTasks X userId ?q tasks = Inr \<lparr> r_items = [B], r_page = 2, r_limit = 1, r_total = 3 \<rparr>"
    using s l by (simp add: listTasks_page m sortTasks_def sortBy_def)
qed

theorem pagination_witness:
  "mset (filter (\<lambda>t. user t = ''u1'') [taskA, taskZ, taskB, taskC]) = {#taskA, taskB, taskC#} \<and>
   createdAt taskA < createdAt taskB \<and> createdAt taskB < createdAt taskC \<and>
   listTasks test_ext ''u1''
        \<lparr> q_search = None, q_priority = None, q_completed = None, q_dueBefore = None,
          q_dueAfter = None, q_page = 2, q_limit = 1, q_sort = sort_createdAt, q_order = asc \<rparr>
        [taskA, taskZ, taskB, taskC] =
      Inr \<lparr> r_items = [taskB], r_page = 2, r_limit = 1, r_total = 3 \<rparr> \<and>
   listQuerySchema test_ext
        (emptyQuery\<lparr> raw_page := Some ''2'', raw_limit := Some ''1'',
                     raw_sort := Some ''createdAt'', raw_order := Some ''asc'' \<rparr>) =
      Inr \<lparr> q_search = None, q_priority = None, q_completed = None, q_dueBefore = None,
            q_dueAfter = None, q_page = 2, q_limit = 1, q_sort = sort_createdAt,
            q_order = asc \<rparr>"
proof -
  have h: "mset (filter (\<lambda>t. user t = ''u1'') [taskA, taskZ, taskB, taskC]) = {#taskA, taskB, taskC#} \<and>
   createdAt taskA < createdAt taskB \<and> createdAt taskB < createdAt taskC"
    by (simp add: ex_defs)
  have q: "listQuerySchema test_ext
        (emptyQuery\<lparr> raw_page := Some ''2'', raw_limit := Some ''1'',
                     raw_sort := Some ''createdAt'', raw_order := Some ''asc'' \<rparr>) =
       Inr \<lparr> q_search = None, q_priority = None, q_completed = None, q_dueBefore = None,
          q_dueAfter = None, q_page = 2, q_limit = 1, q_sort = sort_createdAt, q_order = asc \<rparr>"
    by (simp add: eval_defs emptyQuery_def)
  from pagination [of "\<lparr> q_search = None, q_priority = None, q_completed = None,
          q_dueBefore = None, q_dueAfter = None, q_page = 2, q_limit = 1,
          q_sort = sort_createdAt, q_order = asc \<rparr>"
        test_ext "''u1''" "[taskA, taskZ, taskB, taskC]" taskA taskB taskC] h
  have "listTasks test_ext ''u1''
        \<lparr> q_search = None, q_priority = None, q_completed = None, q_dueBefore = None,
          q_dueAfter = None, q_page = 2, q_limit = 1, q_sort = sort_createdAt, q_order = asc \<rparr>
        [taskA, taskZ, taskB, taskC] =
      Inr \<lparr> r_items = [taskB], r_page = 2, r_limit = 1, r_total = 3 \<rparr>"
    by blast
  with h q show ?thesis
    by simp
qed

text \<open>
  C8, evaluated at the wire value \<open>completed=false\<close>. \<open>listQuerySchema\<close> coerces the
  string with \<open>Boolean\<close>, which is true of every non-empty string, so the validated
  query carries \<open>completed = true\<close>, and the filter that \<open>listTasks\<close> builds from the
  validated query asks for \<open>completed = true\<close>, not for the supplied \<open>false\<close>. For any
  wire string the validated value is true exactly when the string is not empty.
\<close>

theorem completed_false_filters_true:
  "listQuerySchema X (emptyQuery\<lparr> raw_completed := Some ''false'' \<rparr>) =
     Inr (defaultQuery\<lparr> q_completed := Some True \<rparr>) \<and>
   f_completed (listFilter userId (defaultQuery\<lparr> q_completed := Some True \<rparr>)) = Some True \<and>
   f_completed (listFilter userId (defaultQuery\<lparr> q_completed := Some True \<rparr>)) \<noteq> Some False \<and>
   listQuerySchema X (emptyQuery\<lparr> raw_completed := Some s \<rparr>) =
     Inr (defaultQuery\<lparr> q_completed := Some (s \<noteq> []) \<rparr>)"
proof (intro conjI)
  show "listQuerySchema X (emptyQuery\<lparr> raw_completed := Some ''false'' \<rparr>) =
     Inr (defaultQuery\<lparr> q_completed := Some True \<rparr>)"
    by (simp add: listQuerySchema_def emptyQuery_def defaultQuery_def optional_datetime_def
        coerce_number_def coerce_boolean_def)
  show "f_completed (listFilter userId (defaultQuery\<lparr> q_completed := Some True \<rparr>)) = Some True"
    by (simp add: listFilter_fields)
  show "f_completed (listFilter userId (defaultQuery\<lparr> q_completed := Some True \<rparr>)) \<noteq> Some False"
    by (simp add: listFilter_fields)
  show "listQuerySchema X (emptyQuery\<lparr> raw_completed := Some s \<rparr>) =
     Inr (defaultQuery\<lparr> q_completed := Some (s \<noteq> []) \<rparr>)"
    by (simp add: listQuerySchema_def emptyQuery_def defaultQuery_def optional_datetime_def
        coerce_number_def coerce_boolean_def)
qed

text \<open>
  C9. For an authenticated caller and a task of theirs, \<open>PATCH /tasks/:id\<close> with the body
  \<open>{completed: true}\<close> answers 200 with the task in which only \<open>completed\<close> and
  \<open>updatedAt\<close> are rewritten, and stores it in the place of the old one, every other
  document staying as it is. For any patch, \<open>updateTask\<close> keeps the id, the owner and
  \<open>createdAt\<close>, and every field the patch does not supply.
\<close>

theorem partial_patch_frame:
  assumes auth: "requireAuth X hdr = Inr u"
    and own: "getTask (au_id u) ident tasks = Some t"
    and ident: "ident \<noteq> []"
  shows "\<exists>i < length tasks. tasks ! i = t \<and>
     PATCH_task X hdr ident completedPatch now tasks =
       (\<lparr> status = 200, body = TaskJson (t\<lparr> completed := True, updatedAt := now \<rparr>) \<rparr>,
        tasks[i := t\<lparr> completed := True, updatedAt := now \<rparr>]) \<and>
     (\<forall>p. \<exists>t'. updateTask (au_id u) ident p now tasks = (Some t', tasks[i := t']) \<and>
        task_id t' = task_id t \<and> user t' = user t \<and> createdAt t' = createdAt t \<and>
        (p_title p = None \<longrightarrow> title t' = title t) \<and>
        (p_description p = None \<longrightarrow> description t' = description t) \<and>
        (p_priority p = None \<longrightarrow> priority t' = priority t) \<and>
        (p_dueDate p = None \<longrightarrow> dueDate t' = dueDate t) \<and>
        (p_completed p = None \<longrightarrow> completed t' = completed t))"
proof -
  from own obtain i where i: "findOneIndex (\<lambda>d. task_id d = ident \<and> user d = au_id u) tasks = Some i"
    and ti: "tasks ! i = t"
    by (auto simp: getTask_def findOneIndex_find)
  from findOneIndex_Some [OF i] have len: "i < length tasks" by simp
  have upd: "\<And>p. updateTask (au_id u) ident p now tasks =
                 (Some (applyPatch p now t), tasks[i := applyPatch p now t])"
    using i ti by (simp add: updateTask_def Let_def)
  have route: "PATCH_task X hdr ident completedPatch now tasks =
       (\<lparr> status = 200, body = TaskJson (t\<lparr> completed := True, updatedAt := now \<rparr>) \<rparr>,
        tasks[i := t\<lparr> completed := True, updatedAt := now \<rparr>])"
    using auth updateTaskSchema_completed [OF ident, of X] upd
    by (simp add: PATCH_task_def patch_ctrl_def applyPatch_completed)
  have frame: "\<forall>p. \<exists>t'. updateTask (au_id u) ident p now tasks = (Some t', tasks[i := t']) \<and>
        task_id t' = task_id t \<and> user t' = user t \<and> createdAt t' = createdAt t \<and>
        (p_title p = None \<longrightarrow> title t' = title t) \<and>
        (p_description p = None \<longrightarrow> description t' = description t) \<and>
        (p_priority p = None \<longrightarrow> priority t' = priority t) \<and>
        (p_dueDate p = None \<longrightarrow> dueDate t' = dueDate t) \<and>
        (p_completed p = None \<longrightarrow> completed t' = completed t)"
    using upd by (simp add: applyPatch_frame)
  from len ti route frame show ?thesis by blast
qed

theorem partial_patch_frame_witness:
  "requireAuth test_ext (Some ''Bearer u1'') = Inr \<lparr> au_id = ''u1'', au_email = [], au_name = None \<rparr> \<and>
   getTask ''u1'' ''a1'' [taskZ, taskA] = Some taskA \<and>
   (\<exists>i < length [taskZ, taskA]. [taskZ, taskA] ! i = taskA \<and>
      PATCH_task test_ext (Some ''Bearer u1'') ''a1'' completedPatch 777 [taskZ, taskA] =
       (\<lparr> status = 200, body = TaskJson (taskA\<lparr> completed := True, updatedAt := 777 \<rparr>) \<rparr>,
        [taskZ, taskA][i := taskA\<lparr> completed := True, updatedAt := 777 \<rparr>]))"
proof -
  have a: "requireAuth test_ext (Some ''Bearer u1'') =
             Inr \<lparr> au_id = ''u1'', au_email = [], au_name = None \<rparr>"
    by (simp add: requireAuth_def test_ext_def)
  have g: "getTask (au_id \<lparr> au_id = ''u1'', au_email = [], au_name = None \<rparr>) ''a1'' [taskZ, taskA] = Some taskA"
    by (simp add: getTask_def ex_defs)
  have n: "''a1'' \<noteq> []" by simp
  from partial_patch_frame [OF a g n, of 777] a g show ?thesis
    by auto
qed

text \<open>
  C10. The \<open>dueDate\<close> clause that \<open>listTasks\<close> builds holds of a task due at \<open>d\<close>
  exactly when \<open>d \<le> dueBefore\<close> (if supplied) and \<open>dueAfter \<le> d\<close> (if supplied): both
  bounds are inclusive and apply together.
\<close>

theorem dueDate_bounds_inclusive:
  "matchesDue (f_dueDate (listFilter userId q)) (Some d) =
     ((\<forall>b. q_dueBefore q = Some b \<longrightarrow> d \<le> b) \<and> (\<forall>a. q_dueAfter q = Some a \<longrightarrow> a \<le> d))"
  by (simp add: listFilter_fields matchesDue_def split: option.splits)

theorem dueDate_bounds_inclusive_witness:
  "matchesDue
     (f_dueDate (listFilter ''u1'' (defaultQuery\<lparr> q_dueBefore := Some 500, q_dueAfter := Some 500 \<rparr>)))
     (Some 500) \<and>
   \<not> matchesDue
     (f_dueDate (listFilter ''u1'' (defaultQuery\<lparr> q_dueBefore := Some 500, q_dueAfter := Some 500 \<rparr>)))
     (Some 501)"
  using dueDate_bounds_inclusive [of "''u1''"
          "defaultQuery\<lparr> q_dueBefore := Some 500, q_dueAfter := Some 500 \<rparr>" 500]
        dueDate_bounds_inclusive [of "''u1''"
          "defaultQuery\<lparr> q_dueBefore := Some 500, q_dueAfter := Some 500 \<rparr>" 501]
  by (simp add: defaultQuery_def)

section \<open>Facts about the reset flow\<close>

lemma resetPassword_fail:
  "findOneIndex (resetLookup (sha256_hex X tok) now) users = None \<Longrightarrow>
   resetPassword X tok pw nm now users = (Inl InvalidOrExpiredResetToken, users)"
  by (simp add: resetPassword_def Let_def)

lemma resetPassword_ok:
  assumes "findOneIndex (resetLookup (sha256_hex X tok) now) users = Some i"
  shows "\<exists>r u. resetPassword X tok pw nm now users = (Inr r, users[i := u]) \<and>
           passwordResetTokenHash u = None \<and> passwordResetExpires u = None \<and>
           passwordHash u = bcrypt_hash X pw \<and> user_id u = user_id (users ! i) \<and>
           email u = email (users ! i)"
proof -
  define u1 where "u1 = (users ! i)\<lparr> passwordHash := bcrypt_hash X pw \<rparr>"
  define u2 where "u2 = (case nm of None \<Rightarrow> u1
     | Some n \<Rightarrow> if length (trim n) > 0 then u1\<lparr> name := Some (trim n) \<rparr> else u1)"
  define u3 where "u3 = u2\<lparr> passwordResetTokenHash := None, passwordResetExpires := None \<rparr>"
  have "resetPassword X tok pw nm now users = (Inr (authResult X u3), users[i := u3])"
    unfolding resetPassword_def Let_def u1_def u2_def u3_def using assms by simp
  moreover have "passwordHash u2 = bcrypt_hash X pw" "user_id u2 = user_id (users ! i)"
    "email u2 = email (users ! i)"
    by (simp_all add: u2_def u1_def split: option.splits)
  then have "passwordResetTokenHash u3 = None" "passwordResetExpires u3 = None"
    "passwordHash u3 = bcrypt_hash X pw" "user_id u3 = user_id (users ! i)"
    "email u3 = email (users ! i)"
    by (simp_all add: u3_def)
  ultimately show ?thesis by blast
qed

lemma resetPassword_succeeds_iff:
  "(\<exists>r users'. resetPassword X tok pw nm now users = (Inr r, users')) \<longleftrightarrow>
   (\<exists>u \<in> set users. resetLookup (sha256_hex X tok) now u)"
proof (cases "findOneIndex (resetLookup (sha256_hex X tok) now) users")
  case None
  then show ?thesis
    using resetPassword_fail [OF None, of pw nm] by (simp add: findOneIndex_None)
next
  case (Some i)
  from findOneIndex_Some [OF Some] have "\<exists>u \<in> set users. resetLookup (sha256_hex X tok) now u"
    by (metis nth_mem)
  with resetPassword_ok [OF Some, of pw nm] show ?thesis by blast
qed

lemma requestPasswordReset_store:
  assumes "findOneIndex (\<lambda>u. email u = castEmail em) users = Some i"
  shows "snd (requestPasswordReset X em rawToken now users) =
           users[i := (users ! i)\<lparr> passwordResetTokenHash := Some (sha256_hex X rawToken),
                                   passwordResetExpires := Some (now + 3600000) \<rparr>]"
  using assms by (simp add: requestPasswordReset_def Let_def)

lemma requestPasswordReset_index:
  assumes "findOneIndex (\<lambda>u. email u = castEmail em) users = Some i"
  shows "findOneIndex (\<lambda>u. email u = castEmail em)
           (snd (requestPasswordReset X em rawToken now users)) = Some i"
proof -
  let ?u = "(users ! i)\<lparr> passwordResetTokenHash := Some (sha256_hex X rawToken),
                          passwordResetExpires := Some (now + 3600000) \<rparr>"
  have "findOneIndex (\<lambda>u. email u = castEmail em) (users[i := ?u]) =
        findOneIndex (\<lambda>u. email u = castEmail em) users"
  proof (rule findOneIndex_cong)
    show "length (users[i := ?u]) = length users" by simp
    show "\<forall>j < length (users[i := ?u]).
            (email (users[i := ?u] ! j) = castEmail em) = (email (users ! j) = castEmail em)"
    proof (intro allI impI)
      fix j assume "j < length (users[i := ?u])"
      then show "(email (users[i := ?u] ! j) = castEmail em) = (email (users ! j) = castEmail em)"
        by (cases "j = i") simp_all
    qed
  qed
  with assms show ?thesis
    by (simp add: requestPasswordReset_store)
qed

lemma castEmail_alice: "castEmail ''Alice@Example.com '' = ''alice@example.com''"
  by code_simp

lemma castEmail_carol: "castEmail ''carol@example.com'' = ''carol@example.com''"
  by code_simp

lemma reset_eval:
  "resetPassword test_ext ''r1'' ''newpw'' None 5000 [bob, aliceReset] =
     (Inr \<lparr> ar_user = \<lparr> pu_id = ''u1'', pu_email = ''alice@example.com'', pu_name = Some ''Alice'' \<rparr>,
            ar_token = ''u1'' \<rparr>, [bob, aliceDone])"
  by (simp add: resetPassword_def Let_def resetLookup_def test_ext_def user_defs authResult_def
      signToken_def)

lemma request_eval:
  "requestPasswordReset test_ext ''Alice@Example.com '' ''r1'' 1000 [bob, alice] =
     (\<lparr> ok = True, token = Some ''r1'' \<rparr>, [bob, aliceReset])"
  by (simp add: requestPasswordReset_def castEmail_alice Let_def test_ext_def user_defs)

lemma find_alice:
  "findOneIndex (\<lambda>u. email u = castEmail ''Alice@Example.com '') [bob, alice] = Some 1"
  by (simp add: castEmail_alice user_defs)

lemma request_eval2:
  "requestPasswordReset test_ext ''Alice@Example.com '' ''r2'' 2000 [bob, aliceReset] =
     (\<lparr> ok = True, token = Some ''r2'' \<rparr>, [bob, aliceSecond])"
  by (simp add: requestPasswordReset_def castEmail_alice Let_def test_ext_def user_defs
      aliceSecond_def)

lemma requestPasswordReset_ok: "ok (fst (requestPasswordReset X em raw now users))"
  by (cases "findOneIndex (\<lambda>u. email u = castEmail em) users")
     (simp_all add: requestPasswordReset_def Let_def)

lemma requestPasswordReset_production:
  "NODE_ENV X = Some ''production'' \<Longrightarrow>
   fst (requestPasswordReset X em raw now users) = \<lparr> ok = True, token = None \<rparr>"
  by (cases "findOneIndex (\<lambda>u. email u = castEmail em) users")
     (simp_all add: requestPasswordReset_def Let_def)

lemma login_unknown:
  "find (\<lambda>u. email u = castEmail em) users = None \<Longrightarrow> login X em pw users = Inl InvalidCredentials"
  by (simp add: login_def)

lemma login_wrong_password:
  "find (\<lambda>u. email u = castEmail em) users = Some u \<Longrightarrow> \<not> bcrypt_compare X pw (passwordHash u) \<Longrightarrow>
   login X em pw users = Inl InvalidCredentials"
  by (simp add: login_def)

lemma requestPasswordReset_dev:
  "NODE_ENV X \<noteq> Some ''production'' \<Longrightarrow>
   token (fst (requestPasswordReset X em raw now users)) =
     (case findOneIndex (\<lambda>u. email u = castEmail em) users of None \<Rightarrow> None | Some i \<Rightarrow> Some raw)"
  by (cases "findOneIndex (\<lambda>u. email u = castEmail em) users")
     (simp_all add: requestPasswordReset_def Let_def)

section \<open>Claims about users\<close>

text \<open>
  C2. A user holds the hash of a raw reset token, unexpired, and no other user holds that
  hash (the token is 32 fresh random bytes). Then the first \<open>resetPassword\<close> with the raw
  token succeeds, replaces the password hash of that user and clears both reset fields,
  leaving every other user as they were; a second \<open>resetPassword\<close> with the same raw
  token, at any time and with any password, fails with \<open>InvalidOrExpiredResetToken\<close> and
  leaves the store unchanged.
\<close>

theorem reset_token_single_use:
  assumes i: "i < length users"
    and h: "passwordResetTokenHash (users ! i) = Some (sha256_hex X rawToken)"
    and e: "passwordResetExpires (users ! i) = Some expires" "now1 < expires"
    and only: "\<forall>j < length users. j \<noteq> i \<longrightarrow>
                 passwordResetTokenHash (users ! j) \<noteq> Some (sha256_hex X rawToken)"
  shows "\<exists>r users'. resetPassword X rawToken pw1 nm1 now1 users = (Inr r, users') \<and>
           length users' = length users \<and>
           passwordResetTokenHash (users' ! i) = None \<and>
           passwordResetExpires (users' ! i) = None \<and>
           passwordHash (users' ! i) = bcrypt_hash X pw1 \<and>
           (\<forall>j < length users. j \<noteq> i \<longrightarrow> users' ! j = users ! j) \<and>
           resetPassword X rawToken pw2 nm2 now2 users' = (Inl InvalidOrExpiredResetToken, users')"
proof -
  let ?h = "sha256_hex X rawToken"
  have "resetLookup ?h now1 (users ! i)"
    using h e by (simp add: resetLookup_def)
  moreover have "\<forall>j<i. \<not> resetLookup ?h now1 (users ! j)"
    using only i by (auto simp: resetLookup_def)
  ultimately have f: "findOneIndex (resetLookup ?h now1) users = Some i"
    using i by (intro findOneIndex_eqI) auto
  from resetPassword_ok [OF f, of pw1 nm1] obtain r u where
    r: "resetPassword X rawToken pw1 nm1 now1 users = (Inr r, users[i := u])"
    and u: "passwordResetTokenHash u = None" "passwordResetExpires u = None"
           "passwordHash u = bcrypt_hash X pw1"
    by blast
  have "\<forall>x \<in> set (users[i := u]). \<not> resetLookup ?h now2 x"
  proof
    fix x assume "x \<in> set (users[i := u])"
    then obtain j where j: "j < length users" "x = users[i := u] ! j"
      by (auto simp: in_set_conv_nth)
    show "\<not> resetLookup ?h now2 x"
    proof (cases "j = i")
      case True
      with j i u show ?thesis by (simp add: resetLookup_def)
    next
      case False
      with j only show ?thesis by (simp add: resetLookup_def)
    qed
  qed
  then have "findOneIndex (resetLookup ?h now2) (users[i := u]) = None"
    by (simp add: findOneIndex_None)
  then have second: "resetPassword X rawToken pw2 nm2 now2 (users[i := u]) =
                       (Inl InvalidOrExpiredResetToken, users[i := u])"
    by (rule resetPassword_fail)
  from r u i second show ?thesis
    by (intro exI [of _ r] exI [of _ "users[i := u]"]) simp
qed

theorem reset_token_single_use_witness:
  "passwordResetTokenHash ([bob, aliceReset] ! 1) = Some (sha256_hex test_ext ''r1'') \<and>
   passwordResetExpires ([bob, aliceReset] ! 1) = Some 3601000 \<and>
   resetPassword test_ext ''r1'' ''newpw'' None 5000 [bob, aliceReset] =
     (Inr \<lparr> ar_user = \<lparr> pu_id = ''u1'', pu_email = ''alice@example.com'', pu_name = Some ''Alice'' \<rparr>,
            ar_token = ''u1'' \<rparr>, [bob, aliceDone]) \<and>
   passwordResetTokenHash aliceDone = None \<and> passwordResetExpires aliceDone = None \<and>
   resetPassword test_ext ''r1'' ''other'' None 6000 [bob, aliceDone] =
     (Inl InvalidOrExpiredResetToken, [bob, aliceDone])"
proof -
  have i: "(1::nat) < length [bob, aliceReset]" by simp
  have h: "passwordResetTokenHash ([bob, aliceReset] ! 1) = Some (sha256_hex test_ext ''r1'')"
    by (simp add: user_defs test_ext_def)
  have e: "passwordResetExpires ([bob, aliceReset] ! 1) = Some 3601000" "(5000::int) < 3601000"
    by (simp_all add: user_defs)
  have only: "\<forall>j < length [bob, aliceReset]. j \<noteq> 1 \<longrightarrow>
                 passwordResetTokenHash ([bob, aliceReset] ! j) \<noteq> Some (sha256_hex test_ext ''r1'')"
    by (simp add: user_defs test_ext_def less_Suc_eq)
  from reset_token_single_use [OF i h e only, of "''newpw''" None "''other''" None 6000]
  have second: "resetPassword test_ext ''r1'' ''other'' None 6000 [bob, aliceDone] =
     (Inl InvalidOrExpiredResetToken, [bob, aliceDone])"
    by (auto simp: reset_eval)
  have d: "passwordResetTokenHash aliceDone = None" "passwordResetExpires aliceDone = None"
    by (simp_all add: user_defs)
  from h e(1) reset_eval d second show ?thesis
    by blast
qed

text \<open>
  C3. \<open>requestPasswordReset\<close> stores, with the hash of the raw token, the expiry
  \<open>Date.now() + 3600000\<close>, one hour after the call. \<open>resetPassword\<close> succeeds exactly
  when some user holds the hash of the presented token together with an expiry strictly
  after the time of the call; when every user holding that hash has an expiry at or
  before the time of the call, it fails with \<open>InvalidOrExpiredResetToken\<close> and leaves the
  store unchanged.
\<close>

theorem reset_token_expiry:
  "(findOneIndex (\<lambda>u. email u = castEmail em) users = Some i \<longrightarrow>
      passwordResetExpires (snd (requestPasswordReset X em rawToken created users) ! i) =
        Some (created + 3600000) \<and>
      passwordResetTokenHash (snd (requestPasswordReset X em rawToken created users) ! i) =
        Some (sha256_hex X rawToken)) \<and>
   ((\<exists>r users'. resetPassword X tok pw nm now users = (Inr r, users')) \<longleftrightarrow>
      (\<exists>u \<in> set users. passwordResetTokenHash u = Some (sha256_hex X tok) \<and>
         (\<exists>e. passwordResetExpires u = Some e \<and> now < e))) \<and>
   ((\<forall>u \<in> set users. passwordResetTokenHash u = Some (sha256_hex X tok) \<longrightarrow>
        (\<forall>e. passwordResetExpires u = Some e \<longrightarrow> e \<le> now)) \<longrightarrow>
      resetPassword X tok pw nm now users = (Inl InvalidOrExpiredResetToken, users))"
proof (intro conjI impI)
  assume f: "findOneIndex (\<lambda>u. email u = castEmail em) users = Some i"
  from findOneIndex_Some [OF f] have "i < length users" by simp
  then show "passwordResetExpires (snd (requestPasswordReset X em rawToken created users) ! i) =
        Some (created + 3600000)"
    and "passwordResetTokenHash (snd (requestPasswordReset X em rawToken created users) ! i) =
        Some (sha256_hex X rawToken)"
    by (simp_all add: requestPasswordReset_store [OF f])
next
  have "\<And>u. resetLookup (sha256_hex X tok) now u \<longleftrightarrow>
          passwordResetTokenHash u = Some (sha256_hex X tok) \<and>
          (\<exists>e. passwordResetExpires u = Some e \<and> now < e)"
    by (auto simp: resetLookup_def split: option.splits)
  then show "(\<exists>r users'. resetPassword X tok pw nm now users = (Inr r, users')) \<longleftrightarrow>
      (\<exists>u \<in> set users. passwordResetTokenHash u = Some (sha256_hex X tok) \<and>
         (\<exists>e. passwordResetExpires u = Some e \<and> now < e))"
    by (simp add: resetPassword_succeeds_iff)
next
  assume a: "\<forall>u \<in> set users. passwordResetTokenHash u = Some (sha256_hex X tok) \<longrightarrow>
        (\<forall>e. passwordResetExpires u = Some e \<longrightarrow> e \<le> now)"
  have "\<forall>u \<in> set users. \<not> resetLookup (sha256_hex X tok) now u"
  proof
    fix u assume "u \<in> set users"
    with a show "\<not> resetLookup (sha256_hex X tok) now u"
      by (cases "passwordResetExpires u") (auto simp: resetLookup_def)
  qed
  then have "findOneIndex (resetLookup (sha256_hex X tok) now) users = None"
    by (simp add: findOneIndex_None)
  then show "resetPassword X tok pw nm now users = (Inl InvalidOrExpiredResetToken, users)"
    by (rule resetPassword_fail)
qed

theorem reset_token_expiry_witness:
  "findOneIndex (\<lambda>u. email u = castEmail ''Alice@Example.com '') [bob, alice] = Some 1 \<and>
   requestPasswordReset test_ext ''Alice@Example.com '' ''r1'' 1000 [bob, alice] =
     (\<lparr> ok = True, token = Some ''r1'' \<rparr>, [bob, aliceReset]) \<and>
   passwordResetExpires aliceReset = Some (1000 + 3600000) \<and>
   passwordResetTokenHash aliceReset = Some (sha256_hex test_ext ''r1'') \<and>
   resetPassword test_ext ''r1'' ''newpw'' None 3601000 [bob, aliceReset] =
     (Inl InvalidOrExpiredResetToken, [bob, aliceReset]) \<and>
   resetPassword test_ext ''r1'' ''newpw'' None 3600999 [bob, aliceReset] =
     (Inr \<lparr> ar_user = \<lparr> pu_id = ''u1'', pu_email = ''alice@example.com'', pu_name = Some ''Alice'' \<rparr>,
            ar_token = ''u1'' \<rparr>, [bob, aliceDone])"
proof -
  have a: "\<forall>u \<in> set [bob, aliceReset].
             passwordResetTokenHash u = Some (sha256_hex test_ext ''r1'') \<longrightarrow>
             (\<forall>e. passwordResetExpires u = Some e \<longrightarrow> e \<le> 3601000)"
    by (simp add: user_defs)
  have fail: "resetPassword test_ext ''r1'' ''newpw'' None 3601000 [bob, aliceReset] =
     (Inl InvalidOrExpiredResetToken, [bob, aliceReset])"
    using a reset_token_expiry [of "''Alice@Example.com ''" "[bob, aliceReset]" 1 test_ext "''r1''" 1000
        "''r1''" "''newpw''" None 3601000]
    by blast
  have e: "passwordResetExpires aliceReset = Some (1000 + 3600000)"
    "passwordResetTokenHash aliceReset = Some (sha256_hex test_ext ''r1'')"
    by (simp_all add: user_defs test_ext_def)
  have good: "resetPassword test_ext ''r1'' ''newpw'' None 3600999 [bob, aliceReset] =
     (Inr \<lparr> ar_user = \<lparr> pu_id = ''u1'', pu_email = ''alice@example.com'', pu_name = Some ''Alice'' \<rparr>,
            ar_token = ''u1'' \<rparr>, [bob, aliceDone])"
    by (simp add: resetPassword_def Let_def resetLookup_def test_ext_def user_defs authResult_def
      signToken_def)
  from find_alice request_eval e fail good show ?thesis by blast
qed

text \<open>
  C4. Two reset requests for the email of an existing user, with raw tokens \<open>raw1\<close> then
  \<open>raw2\<close>: the second overwrites the hash and the expiry the first stored. With \<open>raw1\<close>
  fresh when it was issued (no user held its hash) and the two hashes different,
  \<open>resetPassword\<close> with \<open>raw1\<close> then fails with \<open>InvalidOrExpiredResetToken\<close> at any time,
  and \<open>resetPassword\<close> with \<open>raw2\<close> succeeds before the second expiry.
\<close>

theorem latest_reset_token_only:
  assumes ex: "findOneIndex (\<lambda>u. email u = castEmail em) users = Some i"
    and fresh: "\<forall>u \<in> set users. passwordResetTokenHash u \<noteq> Some (sha256_hex X raw1)"
    and diff: "sha256_hex X raw2 \<noteq> sha256_hex X raw1"
    and s1: "s1 = snd (requestPasswordReset X em raw1 t1 users)"
    and s2: "s2 = snd (requestPasswordReset X em raw2 t2 s1)"
  shows "passwordResetTokenHash (s1 ! i) = Some (sha256_hex X raw1) \<and>
         passwordResetExpires (s1 ! i) = Some (t1 + 3600000) \<and>
         passwordResetTokenHash (s2 ! i) = Some (sha256_hex X raw2) \<and>
         passwordResetExpires (s2 ! i) = Some (t2 + 3600000) \<and>
         resetPassword X raw1 pw nm now s2 = (Inl InvalidOrExpiredResetToken, s2) \<and>
         (now < t2 + 3600000 \<longrightarrow> (\<exists>r s3. resetPassword X raw2 pw nm now s2 = (Inr r, s3)))"
proof -
  from findOneIndex_Some [OF ex] have len: "i < length users" by simp
  let ?u1 = "(users ! i)\<lparr> passwordResetTokenHash := Some (sha256_hex X raw1),
                           passwordResetExpires := Some (t1 + 3600000) \<rparr>"
  have e1: "s1 = users[i := ?u1]"
    using s1 requestPasswordReset_store [OF ex] by simp
  have ex1: "findOneIndex (\<lambda>u. email u = castEmail em) s1 = Some i"
    using s1 requestPasswordReset_index [OF ex] by simp
  let ?u2 = "(s1 ! i)\<lparr> passwordResetTokenHash := Some (sha256_hex X raw2),
                        passwordResetExpires := Some (t2 + 3600000) \<rparr>"
  have e2: "s2 = s1[i := ?u2]"
    using s2 requestPasswordReset_store [OF ex1] by simp
  have len2: "length s2 = length users" using e1 e2 by simp
  have a: "passwordResetTokenHash (s1 ! i) = Some (sha256_hex X raw1)"
    "passwordResetExpires (s1 ! i) = Some (t1 + 3600000)"
    using e1 len by simp_all
  have b: "passwordResetTokenHash (s2 ! i) = Some (sha256_hex X raw2)"
    "passwordResetExpires (s2 ! i) = Some (t2 + 3600000)"
    using e1 e2 len by simp_all
  have "\<forall>x \<in> set s2. \<not> resetLookup (sha256_hex X raw1) now x"
  proof
    fix x assume "x \<in> set s2"
    then obtain j where j: "j < length users" "x = s2 ! j"
      using len2 by (auto simp: in_set_conv_nth)
    show "\<not> resetLookup (sha256_hex X raw1) now x"
    proof (cases "j = i")
      case True
      with j b diff show ?thesis by (simp add: resetLookup_def)
    next
      case False
      with j e1 e2 have "x = users ! j" by simp
      moreover from j have "users ! j \<in> set users" by simp
      ultimately have "passwordResetTokenHash x \<noteq> Some (sha256_hex X raw1)"
        using fresh by blast
      then show ?thesis by (simp add: resetLookup_def)
    qed
  qed
  then have "findOneIndex (resetLookup (sha256_hex X raw1) now) s2 = None"
    by (simp add: findOneIndex_None)
  then have c: "resetPassword X raw1 pw nm now s2 = (Inl InvalidOrExpiredResetToken, s2)"
    by (rule resetPassword_fail)
  have d: "\<exists>r s3. resetPassword X raw2 pw nm now s2 = (Inr r, s3)" if "now < t2 + 3600000"
  proof -
    from b that have "resetLookup (sha256_hex X raw2) now (s2 ! i)"
      by (simp add: resetLookup_def)
    moreover from len len2 have "s2 ! i \<in> set s2" by simp
    ultimately show ?thesis
      using resetPassword_succeeds_iff by blast
  qed
  from a b c d show ?thesis by blast
qed

theorem latest_reset_token_only_witness:
  "findOneIndex (\<lambda>u. email u = castEmail ''Alice@Example.com '') [bob, alice] = Some 1 \<and>
   sha256_hex test_ext ''r2'' \<noteq> sha256_hex test_ext ''r1'' \<and>
   snd (requestPasswordReset test_ext ''Alice@Example.com '' ''r1'' 1000 [bob, alice]) =
     [bob, aliceReset] \<and>
   snd (requestPasswordReset test_ext ''Alice@Example.com '' ''r2'' 2000 [bob, aliceReset]) =
     [bob, aliceSecond] \<and>
   resetPassword test_ext ''r1'' ''newpw'' None 5000 [bob, aliceSecond] =
     (Inl InvalidOrExpiredResetToken, [bob, aliceSecond]) \<and>
   (\<exists>r s3. resetPassword test_ext ''r2'' ''newpw'' None 5000 [bob, aliceSecond] = (Inr r, s3))"
proof -
  have fresh: "\<forall>u \<in> set [bob, alice]. passwordResetTokenHash u \<noteq> Some (sha256_hex test_ext ''r1'')"
    by (simp add: user_defs)
  have diff: "sha256_hex test_ext ''r2'' \<noteq> sha256_hex test_ext ''r1''"
    by (simp add: test_ext_def)
  have s1: "[bob, aliceReset] =
      snd (requestPasswordReset test_ext ''Alice@Example.com '' ''r1'' 1000 [bob, alice])"
    by (simp add: request_eval)
  have s2: "[bob, aliceSecond] =
      snd (requestPasswordReset test_ext ''Alice@Example.com '' ''r2'' 2000 [bob, aliceReset])"
    by (simp add: request_eval2)
  have t: "(5000::int) < 2000 + 3600000" by simp
  from latest_reset_token_only [OF find_alice fresh diff s1 s2, of "''newpw''" None 5000] t
  have "resetPassword test_ext ''r1'' ''newpw'' None 5000 [bob, aliceSecond] =
     (Inl InvalidOrExpiredResetToken, [bob, aliceSecond])"
    and "\<exists>r s3. resetPassword test_ext ''r2'' ''newpw'' None 5000 [bob, aliceSecond] = (Inr r, s3)"
    by blast+
  with find_alice diff s1 s2 show ?thesis by simp
qed

text \<open>
  C5, as the claim states it: the response of \<open>requestPasswordReset\<close> does not tell
  whether the email exists. Outside production it does: for Alice's email the response
  carries the raw token, for an unknown email it does not.
\<close>

theorem forgot_reveals_account_counterexample:
  "fst (requestPasswordReset test_ext ''alice@example.com'' ''r1'' 1000 [bob, alice]) =
     \<lparr> ok = True, token = Some ''r1'' \<rparr> \<and>
   fst (requestPasswordReset test_ext ''carol@example.com'' ''r1'' 1000 [bob, alice]) =
     \<lparr> ok = True, token = None \<rparr> \<and>
   fst (requestPasswordReset test_ext ''alice@example.com'' ''r1'' 1000 [bob, alice]) \<noteq>
   fst (requestPasswordReset test_ext ''carol@example.com'' ''r1'' 1000 [bob, alice])"
proof -
  have c: "castEmail ''alice@example.com'' = ''alice@example.com''" by code_simp
  have a: "fst (requestPasswordReset test_ext ''alice@example.com'' ''r1'' 1000 [bob, alice]) =
     \<lparr> ok = True, token = Some ''r1'' \<rparr>"
    by (simp add: requestPasswordReset_def c Let_def test_ext_def user_defs)
  have b: "fst (requestPasswordReset test_ext ''carol@example.com'' ''r1'' 1000 [bob, alice]) =
     \<lparr> ok = True, token = None \<rparr>"
    by (simp add: requestPasswordReset_def castEmail_carol Let_def test_ext_def user_defs)
  show ?thesis
    unfolding a b by simp
qed

text \<open>
  C5, amended: \<open>login\<close> fails with the same \<open>InvalidCredentials\<close> for an unknown email
  and for a wrong password. \<open>requestPasswordReset\<close> always answers \<open>ok: true\<close>; when
  \<open>NODE_ENV\<close> is \<open>production\<close> its response is \<open>{ok: true}\<close> whatever the email, the
  token, the time and the store, so two runs cannot be told apart; outside production
  the response carries the raw token exactly when the email exists.
\<close>

theorem anti_enumeration:
  "(find (\<lambda>u. email u = castEmail em) users = None \<longrightarrow>
      login X em pw users = Inl InvalidCredentials) \<and>
   (find (\<lambda>u. email u = castEmail em) users = Some u \<and> \<not> bcrypt_compare X pw (passwordHash u) \<longrightarrow>
      login X em pw users = Inl InvalidCredentials) \<and>
   ok (fst (requestPasswordReset X em raw now users)) \<and>
   (NODE_ENV X = Some ''production'' \<longrightarrow>
      fst (requestPasswordReset X em raw now users) = \<lparr> ok = True, token = None \<rparr> \<and>
      fst (requestPasswordReset X em raw now users) =
      fst (requestPasswordReset X em' raw' now' users')) \<and>
   (NODE_ENV X \<noteq> Some ''production'' \<longrightarrow>
      token (fst (requestPasswordReset X em raw now users)) =
        (case findOneIndex (\<lambda>u. email u = castEmail em) users of
           None \<Rightarrow> None
         | Some i \<Rightarrow> Some raw))"
proof (intro conjI impI)
  show "token (fst (requestPasswordReset X em raw now users)) =
        (case findOneIndex (\<lambda>u. email u = castEmail em) users of
           None \<Rightarrow> None
         | Some i \<Rightarrow> Some raw)"
    if "NODE_ENV X \<noteq> Some ''production''"
    using that by (rule requestPasswordReset_dev)
  show "login X em pw users = Inl InvalidCredentials"
    if "find (\<lambda>u. email u = castEmail em) users = None"
    using that by (rule login_unknown)
  show "login X em pw users = Inl InvalidCredentials"
    if "find (\<lambda>u. email u = castEmail em) users = Some u \<and> \<not> bcrypt_compare X pw (passwordHash u)"
    using that login_wrong_password by blast
  show "ok (fst (requestPasswordReset X em raw now users))"
    by (rule requestPasswordReset_ok)
  assume p: "NODE_ENV X = Some ''production''"
  then show "fst (requestPasswordReset X em raw now users) = \<lparr> ok = True, token = None \<rparr>"
    by (rule requestPasswordReset_production)
  from p show "fst (requestPasswordReset X em raw now users) =
      fst (requestPasswordReset X em' raw' now' users')"
    by (simp add: requestPasswordReset_production)
qed

theorem anti_enumeration_witness:
  "find (\<lambda>u. email u = castEmail ''carol@example.com'') [bob, alice] = None \<and>
   login prod_ext ''carol@example.com'' ''secret'' [bob, alice] = Inl InvalidCredentials \<and>
   find (\<lambda>u. email u = castEmail ''Alice@Example.com '') [bob, alice] = Some alice \<and>
   \<not> bcrypt_compare prod_ext ''wrong'' (passwordHash alice) \<and>
   login prod_ext ''Alice@Example.com '' ''wrong'' [bob, alice] = Inl InvalidCredentials \<and>
   NODE_ENV prod_ext = Some ''production'' \<and>
   fst (requestPasswordReset prod_ext ''Alice@Example.com '' ''r1'' 1000 [bob, alice]) =
     \<lparr> ok = True, token = None \<rparr> \<and>
   fst (requestPasswordReset prod_ext ''carol@example.com'' ''r2'' 2000 [bob, alice]) =
     \<lparr> ok = True, token = None \<rparr> \<and>
   NODE_ENV test_ext \<noteq> Some ''production'' \<and>
   token (fst (requestPasswordReset test_ext ''Alice@Example.com '' ''r1'' 1000 [bob, alice])) =
     Some ''r1''"
proof -
  have d: "NODE_ENV test_ext \<noteq> Some ''production''"
    by (simp add: test_ext_def)
  have 5: "token (fst (requestPasswordReset test_ext ''Alice@Example.com '' ''r1'' 1000
             [bob, alice])) = Some ''r1''"
    using d find_alice
      anti_enumeration [of "''Alice@Example.com ''" "[bob, alice]" test_ext "''wrong''" alice
        "''r1''" 1000]
    by simp
  have n: "find (\<lambda>u. email u = castEmail ''carol@example.com'') [bob, alice] = None"
    by (simp add: castEmail_carol user_defs)
  have s: "find (\<lambda>u. email u = castEmail ''Alice@Example.com '') [bob, alice] = Some alice"
    by (simp add: castEmail_alice user_defs)
  have w: "\<not> bcrypt_compare prod_ext ''wrong'' (passwordHash alice)"
    by (simp add: prod_ext_def test_ext_def user_defs)
  have p: "NODE_ENV prod_ext = Some ''production''"
    by (simp add: prod_ext_def)
  have 1: "login prod_ext ''carol@example.com'' ''secret'' [bob, alice] = Inl InvalidCredentials"
    and 2: "fst (requestPasswordReset prod_ext ''carol@example.com'' ''r2'' 2000 [bob, alice]) =
     \<lparr> ok = True, token = None \<rparr>"
    using n p
      anti_enumeration [of "''carol@example.com''" "[bob, alice]" prod_ext "''secret''" alice
        "''r2''" 2000]
    by blast+
  have 3: "login prod_ext ''Alice@Example.com '' ''wrong'' [bob, alice] = Inl InvalidCredentials"
    and 4: "fst (requestPasswordReset prod_ext ''Alice@Example.com '' ''r1'' 1000 [bob, alice]) =
     \<lparr> ok = True, token = None \<rparr>"
    using s w p
      anti_enumeration [of "''Alice@Example.com ''" "[bob, alice]" prod_ext "''wrong''" alice
        "''r1''" 1000]
    by blast+
  from n s w p 1 2 3 4 d 5 show ?thesis by blast
qed

end
